theory Spec2Isabelle
  imports
    Main
    "HOL-Library.Sublist"
    "HOL-Library.Char_ord"
    "HOL-Library.List_Lexorder"
    "HOL-Library.Product_Lexorder"
begin

section \<open>Librus to Google Tasks synchronisation: a model of \<^verbatim>\<open>main.py\<close>\<close>

text \<open>
  The script collects task candidates from a school portal (schedule events and
  homework), sorts them and inserts each into a remote task list unless it is dated
  today or already present. The model below follows \<^verbatim>\<open>main.py\<close> function by function.

  Conventions of the model.
  \<^item> A Python \<^verbatim>\<open>str\<close> is a \<open>string\<close>; one \<open>char\<close> stands for one code point, so the
    model covers the strings whose code points are below 256. On these, the regular
    expression class \<^verbatim>\<open>\d\<close> is exactly the ten ASCII digits.
  \<^item> The clock is a parameter: \<open>now\<close> is the value of \<^verbatim>\<open>datetime.now()\<close> and \<open>today\<close>
    the value of \<^verbatim>\<open>datetime.now().date()\<close>; one reading serves a whole loop.
  \<^item> An exception is a value of type \<open>error\<close>, returned with \<open>Inl\<close>.
  \<^item> The remote task list is explicit state, threaded through the calls.
  \<^item> \<^verbatim>\<open>log_message\<close> only prints and is left out.
\<close>

datatype error = ValueError | IndexError | KeyError | OverflowError | ExternalError

subsection \<open>Calendar dates and \<^verbatim>\<open>datetime\<close>\<close>

text \<open>
  A \<^verbatim>\<open>date\<close> is (year, month, day); a \<^verbatim>\<open>datetime\<close> adds (hour, minute, second,
  microsecond). Python compares both field by field, which is the lexicographic order
  of the tuples.
\<close>

type_synonym ymd = "nat \<times> nat \<times> nat"
type_synonym time_of_day = "nat \<times> nat \<times> nat \<times> nat"
type_synonym datetime = "ymd \<times> time_of_day"

definition midnight :: time_of_day where
  "midnight = (0, 0, 0, 0)"

definition is_leap :: "nat \<Rightarrow> bool" where
  "is_leap y = (y mod 4 = 0 \<and> (y mod 100 \<noteq> 0 \<or> y mod 400 = 0))"

definition days_in_month :: "nat \<Rightarrow> nat \<Rightarrow> nat" where
  "days_in_month y m =
     (if m = 2 then (if is_leap y then 29 else 28)
      else if m = 4 \<or> m = 6 \<or> m = 9 \<or> m = 11 then 30 else 31)"

text \<open>The dates \<^verbatim>\<open>datetime.date(y, m, d)\<close> accepts (\<^verbatim>\<open>MINYEAR\<close> = 1, \<^verbatim>\<open>MAXYEAR\<close> = 9999).\<close>

fun valid_date :: "ymd \<Rightarrow> bool" where
  "valid_date (y, m, d) =
     (1 \<le> y \<and> y \<le> 9999 \<and> 1 \<le> m \<and> m \<le> 12 \<and> 1 \<le> d \<and> d \<le> days_in_month y m)"

text \<open>
  \<^verbatim>\<open>dt - timedelta(days=1)\<close>: the day before, at the same time of day; it raises
  \<^verbatim>\<open>OverflowError\<close> below 0001-01-01.
\<close>

fun prev_day :: "ymd \<Rightarrow> error + ymd" where
  "prev_day (y, m, d) =
     (if 1 < d then Inr (y, m, d - 1)
      else if 1 < m then Inr (y, m - 1, days_in_month y (m - 1))
      else if 1 < y then Inr (y - 1, 12, 31)
      else Inl OverflowError)"

fun minus_one_day :: "datetime \<Rightarrow> error + datetime" where
  "minus_one_day (d, t) = (case prev_day d of Inl e \<Rightarrow> Inl e | Inr p \<Rightarrow> Inr (p, t))"

subsection \<open>Digits, \<^verbatim>\<open>strptime(s, "%Y-%m-%d")\<close> and \<^verbatim>\<open>isoformat\<close>\<close>

definition is_digit :: "char \<Rightarrow> bool" where
  "is_digit c = (c \<in> set ''0123456789'')"

definition is_nonzero_digit :: "char \<Rightarrow> bool" where
  "is_nonzero_digit c = (c \<in> set ''123456789'')"

definition digit_val :: "char \<Rightarrow> nat" where
  "digit_val c = of_char c - 48"

definition digit_char :: "nat \<Rightarrow> char" where
  "digit_char n = ''0123456789'' ! (n mod 10)"

text \<open>
  The characters \<^verbatim>\<open>str.split()\<close>, \<^verbatim>\<open>str.strip()\<close> and \<^verbatim>\<open>int()\<close> treat as white space,
  among the code points below 256.
\<close>

definition is_space :: "char \<Rightarrow> bool" where
  "is_space c =
     (let n = (of_char c :: nat)
      in (9 \<le> n \<and> n \<le> 13) \<or> (28 \<le> n \<and> n \<le> 32) \<or> n = 133 \<or> n = 160)"

text \<open>\<^verbatim>\<open>int(s)\<close> on the text of a matched group: digits, after an optional blank.\<close>

definition py_int :: "string \<Rightarrow> nat" where
  "py_int s = foldl (\<lambda>n c. 10 * n + digit_val c) 0 (dropWhile is_space s)"

text \<open>
  The groups of the regular expression that \<^verbatim>\<open>_strptime\<close> builds for the format:
  \<^verbatim>\<open>%Y\<close> is \<^verbatim>\<open>\d\d\d\d\<close>, \<^verbatim>\<open>%m\<close> is \<^verbatim>\<open>1[0-2]|0[1-9]|[1-9]\<close> and \<^verbatim>\<open>%d\<close> is
  \<^verbatim>\<open>3[01]|[12]\d|0[1-9]|[1-9]| [1-9]\<close>.
\<close>

fun year_re :: "string \<Rightarrow> bool" where
  "year_re [a, b, c, d] = (is_digit a \<and> is_digit b \<and> is_digit c \<and> is_digit d)"
| "year_re _ = False"

fun month_re :: "string \<Rightarrow> bool" where
  "month_re [a] = is_nonzero_digit a"
| "month_re [a, b] =
     ((a = CHR ''1'' \<and> b \<in> set ''012'') \<or> (a = CHR ''0'' \<and> is_nonzero_digit b))"
| "month_re _ = False"

fun day_re :: "string \<Rightarrow> bool" where
  "day_re [a] = is_nonzero_digit a"
| "day_re [a, b] =
     ((a = CHR ''3'' \<and> b \<in> set ''01'') \<or> (a \<in> set ''12'' \<and> is_digit b)
      \<or> (a = CHR ''0'' \<and> is_nonzero_digit b) \<or> (a = CHR '' '' \<and> is_nonzero_digit b))"
| "day_re _ = False"

text \<open>
  \<^verbatim>\<open>datetime.strptime(s, "%Y-%m-%d")\<close>. The whole string has to match (unconverted
  data raises), the groups are separated by the two hyphens, and the date has to
  exist. \<open>None\<close> stands for the \<^verbatim>\<open>ValueError\<close>; the result is the date, the time of the
  parsed \<^verbatim>\<open>datetime\<close> being midnight.
\<close>

definition strptime :: "string \<Rightarrow> ymd option" where
  "strptime s =
     (let ytxt = take 4 s;
          rest = drop 5 s;
          mtxt = takeWhile (\<lambda>c. c \<noteq> CHR ''-'') rest;
          after = dropWhile (\<lambda>c. c \<noteq> CHR ''-'') rest
      in if year_re ytxt \<and> take 1 (drop 4 s) = ''-'' \<and> month_re mtxt
            \<and> take 1 after = ''-'' \<and> day_re (drop 1 after)
         then (let d = (py_int ytxt, py_int mtxt, py_int (drop 1 after))
               in if valid_date d then Some d else None)
         else None)"

definition pad2 :: "nat \<Rightarrow> string" where
  "pad2 k = [digit_char (k div 10), digit_char k]"

definition pad4 :: "nat \<Rightarrow> string" where
  "pad4 k = [digit_char (k div 1000), digit_char (k div 100), digit_char (k div 10), digit_char k]"

text \<open>\<^verbatim>\<open>date.isoformat()\<close>, and \<^verbatim>\<open>datetime.isoformat()\<close> of a \<^verbatim>\<open>datetime\<close> at midnight.\<close>

fun iso_date :: "ymd \<Rightarrow> string" where
  "iso_date (y, m, d) = pad4 y @ ''-'' @ pad2 m @ ''-'' @ pad2 d"

definition isoformat :: "ymd \<Rightarrow> string" where
  "isoformat d = iso_date d @ ''T00:00:00''"

text \<open>A date string in the form \<^verbatim>\<open>YYYY-MM-DD\<close>: it parses, and formats back to itself.\<close>

definition canonical :: "string \<Rightarrow> bool" where
  "canonical s = (case strptime s of None \<Rightarrow> False | Some d \<Rightarrow> iso_date d = s)"

subsection \<open>The task store (Google Tasks service)\<close>

text \<open>
  A task resource, as the script reads and writes it: the keys \<^verbatim>\<open>title\<close>, \<^verbatim>\<open>due\<close> and
  \<^verbatim>\<open>notes\<close> of the JSON object, each present or absent (a task without a due date has
  no \<^verbatim>\<open>due\<close> key).
\<close>

record remote_task =
  rt_title :: "string option"
  due :: "string option"
  rt_notes :: "string option"

datatype api_call = TasksList | TasksInsert remote_task

text \<open>
  The state of the service: \<open>tasks\<close> is what
  \<^verbatim>\<open>tasks().list(tasklist=..., showCompleted=False)\<close> returns under \<^verbatim>\<open>items\<close>, the
  non-completed tasks of the list; \<^verbatim>\<open>tasks().insert\<close> appends to it. \<open>calls\<close> records the
  requests made, each with the \<^verbatim>\<open>event_date\<close> argument of the call of
  \<^verbatim>\<open>add_task_if_not_exists\<close> that made it.
\<close>

record service =
  tasks :: "remote_task list"
  calls :: "(string \<times> api_call) list"

text \<open>An entry of \<^verbatim>\<open>all_tasks\<close>: the dictionary with keys \<^verbatim>\<open>title\<close>, \<^verbatim>\<open>date\<close> and \<^verbatim>\<open>notes\<close>
  (\<open>task_notes\<close> here).\<close>

record task =
  title :: string
  date :: string
  task_notes :: string

text \<open>
  The loop of \<^verbatim>\<open>add_task_if_not_exists\<close> over the listed tasks. \<^verbatim>\<open>task['title']\<close> and
  \<^verbatim>\<open>task['due']\<close> raise \<^verbatim>\<open>KeyError\<close> on a missing key; \<^verbatim>\<open>and\<close> reads \<^verbatim>\<open>due\<close> only
  when the titles are equal.
\<close>

fun find_existing :: "remote_task list \<Rightarrow> string \<Rightarrow> string \<Rightarrow> error + bool" where
  "find_existing [] event_title event_date = Inr False"
| "find_existing (t # ts) event_title event_date =
     (case rt_title t of
        None \<Rightarrow> Inl KeyError
      | Some ttl \<Rightarrow>
          if ttl = event_title then
            (case due t of
               None \<Rightarrow> Inl KeyError
             | Some d \<Rightarrow>
                 if prefix event_date d then Inr True
                 else find_existing ts event_title event_date)
          else find_existing ts event_title event_date)"

definition new_task :: "ymd \<Rightarrow> string \<Rightarrow> string \<Rightarrow> remote_task" where
  "new_task event_datetime event_title event_notes =
     \<lparr>rt_title = Some event_title,
      due = Some (isoformat event_datetime @ ''Z''),
      rt_notes = Some event_notes\<rparr>"

text \<open>
  \<^verbatim>\<open>GoogleTasksManager.add_task_if_not_exists\<close>. The result is the returned flag or the
  exception raised, paired with the service afterwards: what was requested before an
  exception stays requested.
\<close>

definition add_task_if_not_exists ::
  "ymd \<Rightarrow> service \<Rightarrow> string \<Rightarrow> string \<Rightarrow> string \<Rightarrow> (error + bool) \<times> service" where
  "add_task_if_not_exists today svc event_title event_date event_notes =
     (case strptime event_date of
        None \<Rightarrow> (Inl ValueError, svc)
      | Some event_datetime \<Rightarrow>
          if event_datetime = today then (Inr False, svc)
          else
            (let svc1 = svc\<lparr>calls := calls svc @ [(event_date, TasksList)]\<rparr>
             in case find_existing (tasks svc1) event_title event_date of
                  Inl e \<Rightarrow> (Inl e, svc1)
                | Inr True \<Rightarrow> (Inr False, svc1)
                | Inr False \<Rightarrow>
                    (let t = new_task event_datetime event_title event_notes
                     in (Inr True, svc1\<lparr>tasks := tasks svc1 @ [t],
                                        calls := calls svc1 @ [(event_date, TasksInsert t)]\<rparr>))))"

subsection \<open>Submitting the collected tasks\<close>

text \<open>
  \<^verbatim>\<open>list.sort(key=..., reverse=True)\<close> is stable: equal keys keep their order. It is
  the stable ascending sort of the reversed list, reversed. The keys are the date
  strings, compared as strings.
\<close>

definition sort_reverse :: "task list \<Rightarrow> task list" where
  "sort_reverse ts = rev (sort_key date (rev ts))"

text \<open>The \<^verbatim>\<open>for\<close> loop of \<^verbatim>\<open>process_collected_tasks\<close>, with its counter.\<close>

fun submit_loop :: "ymd \<Rightarrow> service \<Rightarrow> task list \<Rightarrow> nat \<Rightarrow> (error + nat) \<times> service" where
  "submit_loop today svc [] added_count = (Inr added_count, svc)"
| "submit_loop today svc (t # ts) added_count =
     (case add_task_if_not_exists today svc (title t) (date t) (task_notes t) of
        (Inl e, svc') \<Rightarrow> (Inl e, svc')
      | (Inr added, svc') \<Rightarrow>
          submit_loop today svc' ts (if added then added_count + 1 else added_count))"

text \<open>\<^verbatim>\<open>LibrusSync.process_collected_tasks\<close> (the specification's \<^verbatim>\<open>submit_all\<close>).\<close>

definition process_collected_tasks :: "ymd \<Rightarrow> service \<Rightarrow> task list \<Rightarrow> (error + nat) \<times> service" where
  "process_collected_tasks today svc all_tasks = submit_loop today svc (sort_reverse all_tasks) 0"

subsection \<open>Strings\<close>

text \<open>\<^verbatim>\<open>str.lower()\<close> on one code point below 256.\<close>

definition lower_char :: "char \<Rightarrow> char" where
  "lower_char c =
     (let n = (of_char c :: nat)
      in if (65 \<le> n \<and> n \<le> 90) \<or> (192 \<le> n \<and> n \<le> 222 \<and> n \<noteq> 215)
         then char_of (n + 32) else c)"

definition lower :: "string \<Rightarrow> string" where
  "lower s = map lower_char s"

text \<open>\<^verbatim>\<open>k in s\<close> on strings: \<open>k\<close> occurs in \<open>s\<close> as a contiguous substring.\<close>

fun str_contains :: "string \<Rightarrow> string \<Rightarrow> bool" where
  "str_contains [] k = (k = [])"
| "str_contains (c # cs) k = (prefix k (c # cs) \<or> str_contains cs k)"

text \<open>\<^verbatim>\<open>sep.join(xs)\<close>.\<close>

fun join :: "string \<Rightarrow> string list \<Rightarrow> string" where
  "join sep [] = []"
| "join sep [x] = x"
| "join sep (x # y # ys) = x @ sep @ join sep (y # ys)"

text \<open>\<^verbatim>\<open>str(i)\<close> of an integer and \<^verbatim>\<open>s.zfill(width)\<close>.\<close>

fun digits :: "nat \<Rightarrow> string" where
  "digits n = (if n < 10 then [digit_char n] else digits (n div 10) @ [digit_char n])"

definition str_int :: "int \<Rightarrow> string" where
  "str_int i = (if i < 0 then CHR ''-'' # digits (nat (- i)) else digits (nat i))"

definition zfill :: "nat \<Rightarrow> string \<Rightarrow> string" where
  "zfill width s =
     (if width \<le> length s then s
      else (case s of
              [] \<Rightarrow> replicate width CHR ''0''
            | c # cs \<Rightarrow>
                if c = CHR ''+'' \<or> c = CHR ''-''
                then c # replicate (width - length s) CHR ''0'' @ cs
                else replicate (width - length s) CHR ''0'' @ s))"

text \<open>
  \<^verbatim>\<open>s.split()[0]\<close>: the first run of characters that are not white space;
  \<^verbatim>\<open>IndexError\<close> when there is none.
\<close>

definition split_first :: "string \<Rightarrow> error + string" where
  "split_first s =
     (let tok = takeWhile (\<lambda>c. \<not> is_space c) (dropWhile is_space s)
      in if tok = [] then Inl IndexError else Inr tok)"

subsection \<open>The schedule normalizer\<close>

text \<open>
  An \<^verbatim>\<open>Event\<close> of the portal library: its fields are strings and \<^verbatim>\<open>data\<close> is a
  dictionary from strings to strings, kept as the list of its items.
\<close>

record event =
  ev_title :: string
  subject :: string
  hour :: string
  data :: "(string \<times> string) list"

definition TEST_KEYWORDS :: "string list" where
  "TEST_KEYWORDS = [''sprawdzian'', ''kartk'' @ [CHR 0xF3] @ ''wka'']"

text \<open>\<^verbatim>\<open>LibrusSync._add_event_task\<close>: the entry appended to \<^verbatim>\<open>all_tasks\<close>.\<close>

definition add_event_task :: "task list \<Rightarrow> event \<Rightarrow> string \<Rightarrow> task list" where
  "add_event_task all_tasks ev event_date =
     (let notes_list =
            (if data ev \<noteq> []
             then map (\<lambda>(k, v). k @ '': '' @ v)
                    (filter (\<lambda>(k, v). v \<noteq> [] \<and> v \<noteq> ''unknown'') (data ev))
             else []);
          event_title0 =
            (if subject ev \<noteq> [] then ev_title ev @ '' - '' @ subject ev else ev_title ev);
          event_title =
            (if hour ev \<noteq> [] \<and> hour ev \<noteq> ''unknown''
             then event_title0 @ '' ('' @ hour ev @ '')'' else event_title0)
      in all_tasks @
         [\<lparr>title = event_title,
           date = event_date,
           task_notes =
             (if notes_list \<noteq> [] then join [CHR 0x0A] notes_list
              else ''Brak dodatkowych informacji'')\<rparr>])"

text \<open>
  \<^verbatim>\<open>LibrusSync._process_day_events\<close>. The date string is parsed before the clock is
  read; neither \<^verbatim>\<open>ValueError\<close> nor \<^verbatim>\<open>OverflowError\<close> is caught here. The comparison is
  between two \<^verbatim>\<open>datetime\<close> values: the event's day at midnight, and the current time
  one day earlier.
\<close>

fun process_day_events ::
  "datetime \<Rightarrow> task list \<Rightarrow> event list \<Rightarrow> int \<Rightarrow> string \<Rightarrow> string \<Rightarrow> error + task list" where
  "process_day_events now all_tasks [] day month year = Inr all_tasks"
| "process_day_events now all_tasks (ev # evs) day month year =
     (if ev_title ev = [] then process_day_events now all_tasks evs day month year
      else if \<not> list_ex (\<lambda>keyword. str_contains (lower (ev_title ev)) keyword) TEST_KEYWORDS
      then process_day_events now all_tasks evs day month year
      else
        (let event_date = year @ ''-'' @ month @ ''-'' @ zfill 2 (str_int day)
         in case strptime event_date of
              None \<Rightarrow> Inl ValueError
            | Some d \<Rightarrow>
                (case minus_one_day now of
                   Inl e \<Rightarrow> Inl e
                 | Inr limit \<Rightarrow>
                     if (d, midnight) < limit
                     then process_day_events now all_tasks evs day month year
                     else process_day_events now (add_event_task all_tasks ev event_date)
                            evs day month year)))"

text \<open>
  \<^verbatim>\<open>LibrusSync.process_schedule\<close>, given what \<^verbatim>\<open>get_schedule\<close> returned: the items of
  the dictionary from day numbers to event lists. \<^verbatim>\<open>strftime("%m")\<close> and
  \<^verbatim>\<open>strftime("%Y")\<close> are the month in two digits and the year in four.
\<close>

fun schedule_loop ::
  "datetime \<Rightarrow> task list \<Rightarrow> (int \<times> event list) list \<Rightarrow> string \<Rightarrow> string \<Rightarrow> error + task list" where
  "schedule_loop now all_tasks [] month year = Inr all_tasks"
| "schedule_loop now all_tasks ((day, events) # rest) month year =
     (if events \<noteq> []
      then (case process_day_events now all_tasks events day month year of
              Inl e \<Rightarrow> Inl e
            | Inr all_tasks' \<Rightarrow> schedule_loop now all_tasks' rest month year)
      else schedule_loop now all_tasks rest month year)"

fun process_schedule ::
  "datetime \<Rightarrow> task list \<Rightarrow> (int \<times> event list) list \<Rightarrow> error + task list" where
  "process_schedule ((y, m, d), t) all_tasks schedule =
     schedule_loop ((y, m, d), t) all_tasks schedule (pad2 m) (pad4 y)"

subsection \<open>The homework normalizer\<close>

record homework =
  lesson :: string
  completion_date :: string
  href :: string

text \<open>
  \<^verbatim>\<open>LibrusSync._process_single_homework\<close>. \<open>detail\<close> is \<^verbatim>\<open>homework_detail\<close> of the portal
  library, from a reference to the items of the detail dictionary, or to the exception
  it raised. The first line, \<^verbatim>\<open>homework.completion_date.split()[0]\<close>, stands before the
  \<^verbatim>\<open>try\<close>; the handler catches \<^verbatim>\<open>ValueError\<close> only.
\<close>

definition process_single_homework ::
  "datetime \<Rightarrow> (string \<Rightarrow> error + (string \<times> string) list) \<Rightarrow> task list \<Rightarrow> homework
     \<Rightarrow> error + task list" where
  "process_single_homework now detail all_tasks hw =
     (case split_first (completion_date hw) of
        Inl e \<Rightarrow> Inl e
      | Inr cdate \<Rightarrow>
          (case strptime cdate of
             None \<Rightarrow> Inr all_tasks
           | Some homework_date \<Rightarrow>
               if homework_date = fst now then Inr all_tasks
               else if homework_date < fst now then Inr all_tasks
               else
                 (case detail (href hw) of
                    Inl e \<Rightarrow> Inl e
                  | Inr details \<Rightarrow>
                      Inr (all_tasks @
                        [\<lparr>title = ''zadanie - '' @ lesson hw,
                          date = cdate,
                          task_notes =
                            join [CHR 0x0A]
                              (map (\<lambda>(k, v). k @ '': '' @ v)
                                 (filter (\<lambda>(k, v). v \<noteq> []) details))\<rparr>]))))"

text \<open>
  The loop of \<^verbatim>\<open>LibrusSync.process_homework\<close>. An exception leaves the loop; the
  entries appended before it stay in \<^verbatim>\<open>all_tasks\<close>. The result is the exception, if
  any, and the list.
\<close>

fun homework_loop ::
  "datetime \<Rightarrow> (string \<Rightarrow> error + (string \<times> string) list) \<Rightarrow> task list \<Rightarrow> homework list
     \<Rightarrow> error option \<times> task list" where
  "homework_loop now detail all_tasks [] = (None, all_tasks)"
| "homework_loop now detail all_tasks (hw # hws) =
     (case process_single_homework now detail all_tasks hw of
        Inl e \<Rightarrow> (Some e, all_tasks)
      | Inr all_tasks' \<Rightarrow> homework_loop now detail all_tasks' hws)"

text \<open>
  \<^verbatim>\<open>LibrusSync.process_homework\<close>, given the outcome of \<^verbatim>\<open>get_homework\<close>: the list it
  returned, or the exception it raised. The handler \<^verbatim>\<open>except Exception\<close> logs whatever
  was raised and returns. The first and last day of the current month, computed
  before the \<^verbatim>\<open>try\<close>, only go into the request and are left out.
\<close>

definition process_homework ::
  "datetime \<Rightarrow> (string \<Rightarrow> error + (string \<times> string) list) \<Rightarrow> task list
     \<Rightarrow> error + homework list \<Rightarrow> task list" where
  "process_homework now detail all_tasks fetched =
     (case fetched of
        Inl e \<Rightarrow> all_tasks
      | Inr homework_assignments \<Rightarrow> snd (homework_loop now detail all_tasks homework_assignments))"

subsection \<open>The run\<close>

text \<open>
  The body of \<^verbatim>\<open>main\<close> after the login: schedule, homework, submission, starting
  from an empty \<^verbatim>\<open>all_tasks\<close>. \<open>collect\<close> is the list handed to
  \<^verbatim>\<open>process_collected_tasks\<close>.
\<close>

definition collect ::
  "datetime \<Rightarrow> (int \<times> event list) list \<Rightarrow> error + homework list
     \<Rightarrow> (string \<Rightarrow> error + (string \<times> string) list) \<Rightarrow> error + task list" where
  "collect now schedule fetched detail =
     (case process_schedule now [] schedule of
        Inl e \<Rightarrow> Inl e
      | Inr all_tasks \<Rightarrow> Inr (process_homework now detail all_tasks fetched))"

definition main ::
  "datetime \<Rightarrow> service \<Rightarrow> (int \<times> event list) list \<Rightarrow> error + homework list
     \<Rightarrow> (string \<Rightarrow> error + (string \<times> string) list) \<Rightarrow> (error + nat) \<times> service" where
  "main now svc schedule fetched detail =
     (case collect now schedule fetched detail of
        Inl e \<Rightarrow> (Inl e, svc)
      | Inr all_tasks \<Rightarrow> process_collected_tasks (fst now) svc all_tasks)"

subsection \<open>The notifier\<close>

record embed =
  embed_title :: string
  description :: string
  color :: int

definition max_desc_length :: nat where
  "max_desc_length = 4096"

text \<open>
  \<^verbatim>\<open>send_discord_embed\<close>, up to the payload it posts: \<open>None\<close> when no webhook is
  configured (the variable is unset or empty) and nothing is sent. The time stamp of
  the embed and the HTTP exchange are outside the model.
\<close>

definition send_discord_embed :: "string option \<Rightarrow> string \<Rightarrow> string \<Rightarrow> int \<Rightarrow> embed option" where
  "send_discord_embed webhook_url ttl desc col =
     (if webhook_url = None \<or> webhook_url = Some [] then None
      else Some \<lparr>embed_title = ttl,
                 description =
                   (if length desc > max_desc_length
                    then take (max_desc_length - 3) desc @ ''...'' else desc),
                 color = col\<rparr>)"

subsection \<open>Notions of the specification\<close>

text \<open>
  The specification's equality of a remote task and a candidate: the same title, and
  a \<^verbatim>\<open>due\<close> that begins with the candidate's date string.
\<close>

definition spec_equal :: "remote_task \<Rightarrow> string \<Rightarrow> string \<Rightarrow> bool" where
  "spec_equal t event_title event_date =
     (rt_title t = Some event_title
      \<and> (case due t of None \<Rightarrow> False | Some d \<Rightarrow> prefix event_date d))"

text \<open>A remote task as the specification's data model has it: title and due are present.\<close>

definition well_formed :: "remote_task \<Rightarrow> bool" where
  "well_formed t = (rt_title t \<noteq> None \<and> due t \<noteq> None)"

text \<open>
  The calendar order of two date strings that parse: \<open>a\<close> is not earlier than \<open>b\<close>.
\<close>

definition not_earlier :: "string \<Rightarrow> string \<Rightarrow> bool" where
  "not_earlier a b =
     (case (strptime a, strptime b) of (Some x, Some y) \<Rightarrow> y \<le> x | _ \<Rightarrow> False)"

text \<open>
  A remote task as \<^verbatim>\<open>add_task_if_not_exists\<close> inserts it for a candidate with the given
  title and date string in the form \<^verbatim>\<open>YYYY-MM-DD\<close>.
\<close>

definition inserted_for :: "string \<Rightarrow> string \<Rightarrow> remote_task \<Rightarrow> bool" where
  "inserted_for event_title event_date t =
     (rt_title t = Some event_title \<and> due t = Some (event_date @ ''T00:00:00Z''))"

subsection \<open>The date tests of the normalizers\<close>

text \<open>
  A date string passes the test of \<^verbatim>\<open>_process_day_events\<close>: it parses, and its day at
  midnight is not earlier than the current time minus one day. A date string passes
  the tests of \<^verbatim>\<open>_process_single_homework\<close>: it parses to a day later than today.
\<close>

definition kept_by_schedule :: "datetime \<Rightarrow> string \<Rightarrow> bool" where
  "kept_by_schedule now s =
     (case strptime s of
        None \<Rightarrow> False
      | Some d \<Rightarrow> (case minus_one_day now of Inl e \<Rightarrow> False | Inr limit \<Rightarrow> \<not> (d, midnight) < limit))"

definition kept_by_homework :: "datetime \<Rightarrow> string \<Rightarrow> bool" where
  "kept_by_homework now s = (case strptime s of None \<Rightarrow> False | Some d \<Rightarrow> fst now < d)"

section \<open>Properties\<close>

subsection \<open>Evaluations used below\<close>

lemmas date_eval =
  strptime_def is_digit_def is_nonzero_digit_def py_int_def digit_val_def is_space_def
  days_in_month_def is_leap_def pad2_def pad4_def digit_char_def

lemma strptime_20240115: "strptime ''2024-01-15'' = Some (2024, 1, 15)"
  by (simp add: date_eval)

lemma strptime_20240120: "strptime ''2024-01-20'' = Some (2024, 1, 20)"
  by (simp add: date_eval)

lemma strptime_20240201: "strptime ''2024-02-01'' = Some (2024, 2, 1)"
  by (simp add: date_eval)

subsection \<open>Digits and the order of date strings\<close>

lemma of_char_digit_char: "(of_char (digit_char n) :: nat) = 48 + n mod 10"
proof -
  define k where "k = n mod 10"
  have "k < 10" by (simp add: k_def)
  then have "k = 0 \<or> k = 1 \<or> k = 2 \<or> k = 3 \<or> k = 4 \<or> k = 5 \<or> k = 6 \<or> k = 7 \<or> k = 8 \<or> k = 9"
    by arith
  then have "(of_char (''0123456789'' ! k) :: nat) = 48 + k"
    by (elim disjE) simp_all
  then show ?thesis
    by (simp add: digit_char_def k_def)
qed

lemma digit_char_less_iff: "digit_char i < digit_char j \<longleftrightarrow> i mod 10 < j mod 10"
  by (simp add: less_char_def of_char_digit_char)

lemma digit_char_eq_iff: "digit_char i = digit_char j \<longleftrightarrow> i mod 10 = j mod 10"
proof -
  have "digit_char i = digit_char j \<longleftrightarrow> (of_char (digit_char i) :: nat) = of_char (digit_char j)"
    by simp
  then show ?thesis
    by (simp add: of_char_digit_char)
qed

lemma div_mod_less_split:
  fixes a b k :: nat
  assumes "a < b"
  shows "a div k < b div k \<or> (a div k = b div k \<and> a mod k < b mod k)"
proof (cases "a div k = b div k")
  case True
  have a: "a mod k = a - (a div k) * k" and b: "b mod k = b - (a div k) * k"
    by (simp_all add: modulo_nat_def True)
  have "(a div k) * k \<le> a"
    by simp
  with assms have "a - (a div k) * k < b - (a div k) * k"
    by arith
  with True a b show ?thesis
    by simp
next
  case False
  moreover have "a div k \<le> b div k"
    using assms by (simp add: div_le_mono)
  ultimately show ?thesis
    by simp
qed

lemma pad2_less: "a < 100 \<Longrightarrow> b < 100 \<Longrightarrow> a < b \<Longrightarrow> pad2 a < pad2 b"
proof -
  assume a: "a < 100" and b: "b < 100" and ab: "a < b"
  have "a div 10 < b div 10 \<or> (a div 10 = b div 10 \<and> a mod 10 < b mod 10)"
    using ab by (rule div_mod_less_split)
  moreover have "a div 10 < 10" "b div 10 < 10" using a b by simp_all
  ultimately show ?thesis
    unfolding pad2_def by (auto simp add: digit_char_less_iff digit_char_eq_iff)
qed

lemma mod100_div10: "(a::nat) mod 100 div 10 = a div 10 mod 10"
  using mod_mult2_eq [of a 10 10] by simp

lemma pad2_mod: "pad2 (a mod 100) = pad2 a"
  unfolding pad2_def by (simp add: digit_char_eq_iff mod100_div10 mod_mod_cancel)

lemma append_less_same_length:
  "length a = length b \<Longrightarrow> (a @ u < b @ v) \<longleftrightarrow> (a < b \<or> (a = b \<and> u < v))"
  for a b u v :: string
  by (induction a b rule: list_induct2) auto

lemma length_pad2: "length (pad2 k) = 2"
  by (simp add: pad2_def)

lemma length_pad4: "length (pad4 k) = 4"
  by (simp add: pad4_def)

lemma pad4_pad2: "pad4 k = pad2 (k div 100) @ pad2 (k mod 100)"
proof -
  have "k div 100 div 10 = k div 1000"
    by (simp add: div_mult2_eq [symmetric])
  then show ?thesis
    using pad2_mod [of k] by (simp add: pad4_def pad2_def)
qed

lemma pad4_less:
  assumes "a < 10000" and "b < 10000" and "a < b"
  shows "pad4 a < pad4 b"
proof -
  have split: "a div 100 < b div 100 \<or> (a div 100 = b div 100 \<and> a mod 100 < b mod 100)"
    using assms(3) by (rule div_mod_less_split)
  have hi: "a div 100 < 100" "b div 100 < 100"
    using assms by simp_all
  have lo: "a mod 100 < 100" "b mod 100 < 100"
    by simp_all
  from split show ?thesis
  proof
    assume "a div 100 < b div 100"
    then have "pad2 (a div 100) < pad2 (b div 100)"
      by (rule pad2_less [OF hi])
    then show ?thesis
      by (simp add: pad4_pad2 append_less_same_length length_pad2)
  next
    assume e: "a div 100 = b div 100 \<and> a mod 100 < b mod 100"
    then have "pad2 (a mod 100) < pad2 (b mod 100)"
      using pad2_less [OF lo] by simp
    with e show ?thesis
      by (simp add: pad4_pad2 append_less_same_length length_pad2)
  qed
qed


lemma days_in_month_le: "days_in_month y m \<le> 31"
  by (simp add: days_in_month_def)

lemma iso_date_less:
  assumes "valid_date x" and "valid_date y" and "x < y"
  shows "iso_date x < iso_date y"
proof -
  obtain y1 m1 d1 where x: "x = (y1, m1, d1)" by (cases x)
  obtain y2 m2 d2 where y: "y = (y2, m2, d2)" by (cases y)
  have b1: "y1 < 10000" "m1 < 100" "d1 < 100"
    using assms(1) days_in_month_le [of y1 m1] by (simp_all add: x)
  have b2: "y2 < 10000" "m2 < 100" "d2 < 100"
    using assms(2) days_in_month_le [of y2 m2] by (simp_all add: y)
  have "y1 < y2 \<or> (y1 = y2 \<and> (m1 < m2 \<or> (m1 = m2 \<and> d1 < d2)))"
    using assms(3) by (auto simp: x y less_prod_def)
  then show ?thesis
    using pad4_less [OF b1(1) b2(1)] pad2_less [OF b1(2) b2(2)] pad2_less [OF b1(3) b2(3)]
    by (auto simp: x y append_less_same_length length_pad2 length_pad4)
qed

lemma strptime_valid: "strptime s = Some d \<Longrightarrow> valid_date d"
  by (clarsimp simp: strptime_def Let_def split: if_splits)

lemma canonical_not_earlier:
  assumes "canonical a" and "canonical b" and "b \<le> a"
  shows "not_earlier a b"
proof -
  from assms(1) obtain x where x: "strptime a = Some x" "iso_date x = a"
    by (auto simp: canonical_def split: option.splits)
  from assms(2) obtain y where y: "strptime b = Some y" "iso_date y = b"
    by (auto simp: canonical_def split: option.splits)
  have "\<not> x < y"
    using iso_date_less [OF strptime_valid [OF x(1)] strptime_valid [OF y(1)]] assms(3) x(2) y(2)
    by auto
  then show ?thesis
    by (simp add: not_earlier_def x y)
qed

subsection \<open>The two suppression rules of \<^verbatim>\<open>add_task_if_not_exists\<close>\<close>

lemma find_existing_well_formed:
  "list_all well_formed ts \<Longrightarrow>
   find_existing ts event_title event_date
     = Inr (list_ex (\<lambda>t. spec_equal t event_title event_date) ts)"
  by (induction ts) (auto simp: well_formed_def spec_equal_def split: option.splits)

lemma same_day_skipped:
  "strptime event_date = Some today \<Longrightarrow>
   add_task_if_not_exists today svc event_title event_date event_notes = (Inr False, svc)"
  by (simp add: add_task_if_not_exists_def)

lemma filter_sort_reverse: "filter P (sort_reverse ts) = sort_reverse (filter P ts)"
  by (simp only: sort_reverse_def rev_filter [symmetric] filter_sort)

lemma submit_loop_filter:
  "submit_loop today svc (filter (\<lambda>t. strptime (date t) \<noteq> Some today) ts) n
     = submit_loop today svc ts n"
  by (induction ts arbitrary: svc n) (auto simp: same_day_skipped split: sum.splits prod.splits)

text \<open>
  C1, as stated, at a candidate dated today and an empty store: no remote task equals
  the candidate, and yet nothing is inserted (the same-day check returns first, before
  any query).
\<close>

theorem rule_B_same_day_counterexample:
  "list_ex (\<lambda>t. spec_equal t ''Sprawdzian'' ''2024-01-15'') (tasks \<lparr>tasks = [], calls = []\<rparr>) = False \<and>
   add_task_if_not_exists (2024, 1, 15) \<lparr>tasks = [], calls = []\<rparr> ''Sprawdzian'' ''2024-01-15'' ''n''
     = (Inr False, \<lparr>tasks = [], calls = []\<rparr>)"
  by (simp add: add_task_if_not_exists_def strptime_20240115)

text \<open>
  C1, amended. For every candidate whose date string parses to a day other than today,
  and a store whose listed tasks carry a title and a due value: the task list is
  queried first; if some listed task has the candidate's title and a due value that
  begins with the candidate's date string, nothing is inserted and \<open>False\<close> is returned;
  otherwise exactly one task is inserted, after the query, and \<open>True\<close> is returned.
\<close>

theorem rule_B_already_exists:
  assumes "strptime event_date = Some d" and "d \<noteq> today"
    and "list_all well_formed (tasks svc)"
  shows "add_task_if_not_exists today svc event_title event_date event_notes =
    (if list_ex (\<lambda>t. spec_equal t event_title event_date) (tasks svc)
     then (Inr False, svc\<lparr>calls := calls svc @ [(event_date, TasksList)]\<rparr>)
     else (Inr True, svc\<lparr>tasks := tasks svc @ [new_task d event_title event_notes],
                        calls := calls svc @ [(event_date, TasksList),
                          (event_date, TasksInsert (new_task d event_title event_notes))]\<rparr>))"
  using assms by (simp add: add_task_if_not_exists_def find_existing_well_formed Let_def)

theorem rule_B_already_exists_witness:
  "add_task_if_not_exists (2024, 1, 15)
     \<lparr>tasks = [\<lparr>rt_title = Some ''Sprawdzian'', due = Some ''2024-01-20T00:00:00.000Z'', rt_notes = None\<rparr>],
      calls = []\<rparr> ''Sprawdzian'' ''2024-01-20'' ''n''
   = (Inr False,
       \<lparr>tasks = [\<lparr>rt_title = Some ''Sprawdzian'', due = Some ''2024-01-20T00:00:00.000Z'', rt_notes = None\<rparr>],
        calls = [(''2024-01-20'', TasksList)]\<rparr>)
   \<and> add_task_if_not_exists (2024, 1, 15) \<lparr>tasks = [], calls = []\<rparr> ''Sprawdzian'' ''2024-01-20'' ''n''
   = (Inr True,
       \<lparr>tasks = [new_task (2024, 1, 20) ''Sprawdzian'' ''n''],
        calls = [(''2024-01-20'', TasksList),
                 (''2024-01-20'', TasksInsert (new_task (2024, 1, 20) ''Sprawdzian'' ''n''))]\<rparr>)"
proof -
  have ne: "(2024, 1, 20) \<noteq> ((2024, 1, 15) :: ymd)"
    by simp
  have wf1: "list_all well_formed (tasks
     \<lparr>tasks = [\<lparr>rt_title = Some ''Sprawdzian'', due = Some ''2024-01-20T00:00:00.000Z'', rt_notes = None\<rparr>],
      calls = []\<rparr>)"
    by (simp add: well_formed_def)
  have wf2: "list_all well_formed (tasks \<lparr>tasks = [], calls = []\<rparr>)"
    by simp
  show ?thesis
    using rule_B_already_exists [OF strptime_20240120 ne wf1, of "''Sprawdzian''" "''n''"]
      rule_B_already_exists [OF strptime_20240120 ne wf2, of "''Sprawdzian''" "''n''"]
    by (simp add: spec_equal_def)
qed

text \<open>
  C2. A candidate whose date is today is skipped by \<^verbatim>\<open>add_task_if_not_exists\<close> whatever
  the store holds: \<open>False\<close> is returned and the service is left as it was, without a
  request. Hence \<^verbatim>\<open>process_collected_tasks\<close> returns the same count and the same
  service as it does on the batch without its same-day candidates.
\<close>

theorem rule_A_same_day:
  "(strptime event_date = Some today \<longrightarrow>
      add_task_if_not_exists today svc event_title event_date event_notes = (Inr False, svc)) \<and>
   process_collected_tasks today svc all_tasks =
     process_collected_tasks today svc (filter (\<lambda>t. strptime (date t) \<noteq> Some today) all_tasks)"
  by (simp add: same_day_skipped process_collected_tasks_def submit_loop_filter
      flip: filter_sort_reverse)

theorem rule_A_same_day_witness:
  "add_task_if_not_exists (2024, 1, 15)
     \<lparr>tasks = [\<lparr>rt_title = Some ''x'', due = None, rt_notes = None\<rparr>], calls = []\<rparr>
     ''Sprawdzian'' ''2024-01-15'' ''n''
   = (Inr False, \<lparr>tasks = [\<lparr>rt_title = Some ''x'', due = None, rt_notes = None\<rparr>], calls = []\<rparr>)
   \<and> process_collected_tasks (2024, 1, 15) \<lparr>tasks = [], calls = []\<rparr>
       [\<lparr>title = ''Sprawdzian'', date = ''2024-01-15'', task_notes = ''n''\<rparr>]
   = (Inr 0, \<lparr>tasks = [], calls = []\<rparr>)"
  using rule_A_same_day [of "''2024-01-15''" "(2024, 1, 15)"
      "\<lparr>tasks = [\<lparr>rt_title = Some ''x'', due = None, rt_notes = None\<rparr>], calls = []\<rparr>"
      "''Sprawdzian''" "''n''"
      "[\<lparr>title = ''Sprawdzian'', date = ''2024-01-15'', task_notes = ''n''\<rparr>]"]
    rule_A_same_day [of "''2024-01-15''" "(2024, 1, 15)" "\<lparr>tasks = [], calls = []\<rparr>"
      "''Sprawdzian''" "''n''"
      "[\<lparr>title = ''Sprawdzian'', date = ''2024-01-15'', task_notes = ''n''\<rparr>]"]
  by (simp add: strptime_20240115 process_collected_tasks_def sort_reverse_def)

subsection \<open>Notifier truncation\<close>

text \<open>
  C9. Whenever a notification is sent, a description of more than 4096 characters
  goes out as its first 4093 characters followed by \<^verbatim>\<open>...\<close>, and a description of at
  most 4096 characters goes out unchanged. What goes out is never longer than 4096
  characters.
\<close>

theorem notifier_truncation:
  "send_discord_embed webhook_url ttl desc col = Some e \<Longrightarrow>
     (length desc > 4096 \<longrightarrow> description e = take 4093 desc @ ''...'') \<and>
     (length desc \<le> 4096 \<longrightarrow> description e = desc) \<and>
     length (description e) \<le> 4096"
  by (auto simp: send_discord_embed_def max_desc_length_def split: if_splits)

theorem notifier_truncation_witness:
  "send_discord_embed (Some ''https://hook'') ''t'' (replicate 4097 CHR ''a'') 0
     = Some \<lparr>embed_title = ''t'', description = replicate 4093 CHR ''a'' @ ''...'', color = 0\<rparr>
   \<and> description \<lparr>embed_title = ''t'', description = replicate 4093 CHR ''a'' @ ''...'', color = 0\<rparr>
       = take 4093 (replicate 4097 CHR ''a'') @ ''...''"
proof -
  have sent: "send_discord_embed (Some ''https://hook'') ''t'' (replicate 4097 CHR ''a'') 0
     = Some \<lparr>embed_title = ''t'', description = replicate 4093 CHR ''a'' @ ''...'', color = 0\<rparr>"
    by (simp add: send_discord_embed_def max_desc_length_def)
  from notifier_truncation [OF sent] sent show ?thesis
    by simp
qed

subsection \<open>Dates in the form \<^verbatim>\<open>YYYY-MM-DD\<close> and the inserted task\<close>

lemma canonical_length: "canonical s \<Longrightarrow> length s = 10"
proof -
  assume "canonical s"
  then obtain d where "iso_date d = s"
    by (auto simp: canonical_def split: option.splits)
  then show ?thesis
    by (cases d) (auto simp: length_pad2 length_pad4)
qed

lemma canonical_parses: "canonical s \<Longrightarrow> \<exists>d. strptime s = Some d \<and> iso_date d = s"
  by (auto simp: canonical_def split: option.splits)

lemma prefix_same_length: "length a = length b \<Longrightarrow> prefix a (b @ c) \<longleftrightarrow> a = b"
  by (metis append_eq_append_conv prefix_def prefixI append.assoc)

lemma well_formed_new_task: "well_formed (new_task d ttl n)"
  by (simp add: well_formed_def new_task_def)

lemma spec_equal_new_task:
  assumes "canonical dt'" and "strptime dt' = Some d'" and "canonical dt"
  shows "spec_equal (new_task d' ttl' n') ttl dt \<longleftrightarrow> (ttl' = ttl \<and> dt' = dt)"
proof -
  from assms(1,2) have iso: "iso_date d' = dt'"
    by (simp add: canonical_def)
  have len: "length dt = length dt'"
    using assms(1,3) by (simp add: canonical_length)
  show ?thesis
    using prefix_same_length [OF len, of "''T00:00:00Z''"]
    by (auto simp: spec_equal_def new_task_def isoformat_def iso)
qed

lemma inserted_for_new_task:
  assumes "canonical dt'" and "strptime dt' = Some d'"
  shows "inserted_for ttl dt (new_task d' ttl' n') \<longleftrightarrow> (ttl' = ttl \<and> dt' = dt)"
proof -
  from assms have iso: "iso_date d' = dt'"
    by (simp add: canonical_def)
  show ?thesis
    by (auto simp: inserted_for_def new_task_def isoformat_def iso)
qed

lemma inserted_for_spec_equal: "inserted_for ttl dt r \<Longrightarrow> spec_equal r ttl dt"
  by (simp add: inserted_for_def spec_equal_def)

lemma add_task_well_formed:
  assumes "strptime dt = Some d" and "list_all well_formed (tasks svc)"
  shows "add_task_if_not_exists today svc ttl dt n =
    (if d = today then (Inr False, svc)
     else if list_ex (\<lambda>r. spec_equal r ttl dt) (tasks svc)
     then (Inr False, svc\<lparr>calls := calls svc @ [(dt, TasksList)]\<rparr>)
     else (Inr True, svc\<lparr>tasks := tasks svc @ [new_task d ttl n],
                        calls := calls svc @ [(dt, TasksList), (dt, TasksInsert (new_task d ttl n))]\<rparr>))"
  using assms by (simp add: add_task_if_not_exists_def find_existing_well_formed Let_def)

subsection \<open>The order of submission\<close>

lemma sorted_wrt_all: "(\<And>x y. x \<in> set xs \<Longrightarrow> y \<in> set xs \<Longrightarrow> P x y) \<Longrightarrow> sorted_wrt P xs"
  by (induction xs) auto

lemma add_task_calls:
  "\<exists>new. calls (snd (add_task_if_not_exists today svc ttl dt n)) = calls svc @ new
     \<and> (\<forall>p\<in>set new. fst p = dt)"
  by (auto simp: add_task_if_not_exists_def Let_def split: option.splits sum.splits bool.splits)

lemma submit_loop_calls:
  "\<exists>new. calls (snd (submit_loop today svc ts n)) = calls svc @ new
     \<and> (\<forall>p\<in>set new. fst p \<in> date ` set ts)
     \<and> (sorted_wrt (\<lambda>a b. b \<le> a) (map date ts) \<longrightarrow> sorted_wrt (\<lambda>a b. b \<le> a) (map fst new))"
proof (induction ts arbitrary: svc n)
  case Nil
  then show ?case by simp
next
  case (Cons t ts)
  obtain r svc1 where step: "add_task_if_not_exists today svc (title t) (date t) (task_notes t) = (r, svc1)"
    by (cases "add_task_if_not_exists today svc (title t) (date t) (task_notes t)")
  from add_task_calls [of today svc "title t" "date t" "task_notes t"] step
  obtain c1 where c1: "calls svc1 = calls svc @ c1" "\<forall>p\<in>set c1. fst p = date t"
    by auto
  have s1: "sorted_wrt (\<lambda>a b. b \<le> a) (map fst c1)"
    using c1(2) by (intro sorted_wrt_all) auto
  show ?case
  proof (cases r)
    case (Inl e)
    with step c1 s1 show ?thesis
      by auto
  next
    case (Inr added)
    from Cons.IH [of svc1 "if added then n + 1 else n"]
    obtain c2 where c2: "calls (snd (submit_loop today svc1 ts (if added then n + 1 else n))) = calls svc1 @ c2"
      "\<forall>p\<in>set c2. fst p \<in> date ` set ts"
      "sorted_wrt (\<lambda>a b. b \<le> a) (map date ts) \<longrightarrow> sorted_wrt (\<lambda>a b. b \<le> a) (map fst c2)"
      by blast
    have "calls (snd (submit_loop today svc (t # ts) n)) = calls svc @ (c1 @ c2)"
      using step Inr c1(1) c2(1) by simp
    moreover have "\<forall>p\<in>set (c1 @ c2). fst p \<in> date ` set (t # ts)"
      using c1(2) c2(2) by auto
    moreover have "sorted_wrt (\<lambda>a b. b \<le> a) (map fst (c1 @ c2))"
      if srt: "sorted_wrt (\<lambda>a b. b \<le> a) (map date (t # ts))"
    proof -
      from srt have le: "\<forall>x\<in>set ts. date x \<le> date t" and rest: "sorted_wrt (\<lambda>a b. b \<le> a) (map date ts)"
        by auto
      have "\<forall>p\<in>set c1. \<forall>q\<in>set c2. fst q \<le> fst p"
        using c1(2) c2(2) le by fastforce
      with s1 c2(3) rest show ?thesis
        by (simp add: sorted_wrt_append)
    qed
    ultimately show ?thesis
      by blast
  qed
qed

lemma sorted_sort_reverse: "sorted_wrt (\<lambda>a b. b \<le> a) (map date (sort_reverse ts))"
proof -
  have "sorted_wrt (\<le>) (map date (sort_key date (rev ts)))"
    using sorted_sort_key [of date "rev ts"] by simp
  then show ?thesis
    by (simp add: sort_reverse_def rev_map [symmetric] sorted_wrt_rev)
qed

lemma set_sort_reverse: "set (sort_reverse ts) = set ts"
  by (simp add: sort_reverse_def)

text \<open>
  C7. The requests \<^verbatim>\<open>process_collected_tasks\<close> makes, each taken with the date string
  of the candidate it is made for, come in non-increasing order of that date string;
  when the date strings have the form \<^verbatim>\<open>YYYY-MM-DD\<close> this is the calendar order, latest
  date first. This holds for every batch, also when the run ends in an exception.
\<close>

theorem submission_order:
  "\<exists>new. calls (snd (process_collected_tasks today svc all_tasks)) = calls svc @ new
     \<and> sorted_wrt (\<lambda>a b. b \<le> a) (map fst new)
     \<and> (list_all (\<lambda>t. canonical (date t)) all_tasks \<longrightarrow> sorted_wrt not_earlier (map fst new))"
proof -
  from submit_loop_calls [of today svc "sort_reverse all_tasks" 0]
  obtain new where new: "calls (snd (process_collected_tasks today svc all_tasks)) = calls svc @ new"
    "\<forall>p\<in>set new. fst p \<in> date ` set all_tasks"
    "sorted_wrt (\<lambda>a b. b \<le> a) (map fst new)"
    using sorted_sort_reverse [of all_tasks]
    by (auto simp: process_collected_tasks_def set_sort_reverse)
  have "sorted_wrt not_earlier (map fst new)" if canon: "list_all (\<lambda>t. canonical (date t)) all_tasks"
  proof (rule sorted_wrt_mono_rel [OF _ new(3)])
    fix a b
    assume "a \<in> set (map fst new)" "b \<in> set (map fst new)" "b \<le> a"
    moreover from this new(2) canon have "canonical a" "canonical b"
      by (auto simp: list_all_iff)
    ultimately show "not_earlier a b"
      by (simp add: canonical_not_earlier)
  qed
  with new(1,3) show ?thesis
    by blast
qed

theorem submission_order_witness:
  "calls (snd (process_collected_tasks (2024, 1, 15) \<lparr>tasks = [], calls = []\<rparr>
       [\<lparr>title = ''a'', date = ''2024-01-20'', task_notes = ''n''\<rparr>,
        \<lparr>title = ''b'', date = ''2024-02-01'', task_notes = ''n''\<rparr>]))
     = [(''2024-02-01'', TasksList),
        (''2024-02-01'', TasksInsert (new_task (2024, 2, 1) ''b'' ''n'')),
        (''2024-01-20'', TasksList),
        (''2024-01-20'', TasksInsert (new_task (2024, 1, 20) ''a'' ''n''))]
   \<and> sorted_wrt (\<lambda>a b. b \<le> a) [''2024-02-01'', ''2024-02-01'', ''2024-01-20'', ''2024-01-20'']
   \<and> sorted_wrt not_earlier [''2024-02-01'', ''2024-02-01'', ''2024-01-20'', ''2024-01-20'']"
proof -
  let ?batch = "[\<lparr>title = ''a'', date = ''2024-01-20'', task_notes = ''n''\<rparr>,
        \<lparr>title = ''b'', date = ''2024-02-01'', task_notes = ''n''\<rparr>]"
  have run: "calls (snd (process_collected_tasks (2024, 1, 15) \<lparr>tasks = [], calls = []\<rparr> ?batch))
     = [(''2024-02-01'', TasksList),
        (''2024-02-01'', TasksInsert (new_task (2024, 2, 1) ''b'' ''n'')),
        (''2024-01-20'', TasksList),
        (''2024-01-20'', TasksInsert (new_task (2024, 1, 20) ''a'' ''n''))]"
    by (simp add: process_collected_tasks_def sort_reverse_def less_eq_char_def
        add_task_if_not_exists_def strptime_20240201 strptime_20240120 new_task_def
        isoformat_def Let_def pad2_def pad4_def digit_char_def)
  have canon: "list_all (\<lambda>t. canonical (date t)) ?batch"
    by (simp add: canonical_def strptime_20240201 strptime_20240120 pad2_def pad4_def
        digit_char_def)
  from submission_order [of "(2024, 1, 15)" "\<lparr>tasks = [], calls = []\<rparr>" ?batch] run canon
  show ?thesis
    by auto
qed

subsection \<open>Idempotence, and duplicates within a batch\<close>

lemma submit_loop_first:
  assumes "list_all well_formed (tasks svc)" and "list_all (\<lambda>t. canonical (date t)) ts"
  shows "\<exists>ins svc'. submit_loop today svc ts n = (Inr (n + length ins), svc')
      \<and> tasks svc' = tasks svc @ ins
      \<and> list_all well_formed (tasks svc')
      \<and> (\<forall>t\<in>set ts. strptime (date t) = Some today
             \<or> list_ex (\<lambda>r. spec_equal r (title t) (date t)) (tasks svc'))"
  using assms
proof (induction ts arbitrary: svc n)
  case Nil
  then show ?case by simp
next
  case (Cons t ts)
  from Cons.prems(2) obtain d where d: "strptime (date t) = Some d" "iso_date d = date t"
    using canonical_parses [of "date t"] by auto
  have canon_t: "canonical (date t)" and canon_ts: "list_all (\<lambda>t. canonical (date t)) ts"
    using Cons.prems(2) by simp_all
  note step = add_task_well_formed [OF d(1) Cons.prems(1), of today "title t" "task_notes t"]
  let ?match = "list_ex (\<lambda>r. spec_equal r (title t) (date t)) (tasks svc)"
  consider (today) "d = today" | (found) "d \<noteq> today" "?match" | (fresh) "d \<noteq> today" "\<not> ?match"
    by blast
  then show ?case
  proof cases
    case today
    from Cons.IH [OF Cons.prems(1) canon_ts, of n]
    obtain ins svc' where ih: "submit_loop today svc ts n = (Inr (n + length ins), svc')"
      "tasks svc' = tasks svc @ ins" "list_all well_formed (tasks svc')"
      "\<forall>t\<in>set ts. strptime (date t) = Some today
             \<or> list_ex (\<lambda>r. spec_equal r (title t) (date t)) (tasks svc')"
      by blast
    show ?thesis
      using ih today d(1) step by (intro exI [of _ ins] exI [of _ svc']) auto
  next
    case found
    let ?svc1 = "svc\<lparr>calls := calls svc @ [(date t, TasksList)]\<rparr>"
    have wf1: "list_all well_formed (tasks ?svc1)"
      using Cons.prems(1) by simp
    from Cons.IH [OF wf1 canon_ts, of n]
    obtain ins svc' where ih: "submit_loop today ?svc1 ts n = (Inr (n + length ins), svc')"
      "tasks svc' = tasks ?svc1 @ ins" "list_all well_formed (tasks svc')"
      "\<forall>t\<in>set ts. strptime (date t) = Some today
             \<or> list_ex (\<lambda>r. spec_equal r (title t) (date t)) (tasks svc')"
      by blast
    show ?thesis
      using ih found step by (intro exI [of _ ins] exI [of _ svc']) (auto simp: list_ex_iff)
  next
    case fresh
    let ?nt = "new_task d (title t) (task_notes t)"
    let ?svc1 = "svc\<lparr>tasks := tasks svc @ [?nt],
       calls := calls svc @ [(date t, TasksList), (date t, TasksInsert ?nt)]\<rparr>"
    have wf1: "list_all well_formed (tasks ?svc1)"
      using Cons.prems(1) by (simp add: well_formed_new_task)
    have self: "spec_equal ?nt (title t) (date t)"
      using spec_equal_new_task [OF canon_t d(1) canon_t] by simp
    from Cons.IH [OF wf1 canon_ts, of "n + 1"]
    obtain ins svc' where ih: "submit_loop today ?svc1 ts (n + 1) = (Inr (n + 1 + length ins), svc')"
      "tasks svc' = tasks ?svc1 @ ins" "list_all well_formed (tasks svc')"
      "\<forall>t\<in>set ts. strptime (date t) = Some today
             \<or> list_ex (\<lambda>r. spec_equal r (title t) (date t)) (tasks svc')"
      by blast
    show ?thesis
      using ih fresh step self by (intro exI [of _ "?nt # ins"] exI [of _ svc']) (auto simp: list_ex_iff)
  qed
qed

lemma submit_loop_second:
  assumes "list_all well_formed (tasks svc)"
    and "\<forall>t\<in>set ts. strptime (date t) \<noteq> None \<and> (strptime (date t) = Some today
             \<or> list_ex (\<lambda>r. spec_equal r (title t) (date t)) (tasks svc))"
  shows "fst (submit_loop today svc ts n) = Inr n \<and> tasks (snd (submit_loop today svc ts n)) = tasks svc"
  using assms
proof (induction ts arbitrary: svc n)
  case Nil
  then show ?case by simp
next
  case (Cons t ts)
  from Cons.prems(2) obtain d where d: "strptime (date t) = Some d"
    by auto
  note step = add_task_well_formed [OF d Cons.prems(1), of today "title t" "task_notes t"]
  have skip: "d = today \<or> list_ex (\<lambda>r. spec_equal r (title t) (date t)) (tasks svc)"
    using Cons.prems(2) d by auto
  let ?svc1 = "svc\<lparr>calls := calls svc @ [(date t, TasksList)]\<rparr>"
  have ih0: "fst (submit_loop today svc ts n) = Inr n \<and> tasks (snd (submit_loop today svc ts n)) = tasks svc"
    using Cons.IH [of svc n] Cons.prems by simp
  have ih1: "fst (submit_loop today ?svc1 ts n) = Inr n \<and> tasks (snd (submit_loop today ?svc1 ts n)) = tasks svc"
    using Cons.IH [of ?svc1 n] Cons.prems by simp
  show ?case
    using skip step ih0 ih1 by auto
qed


lemma list_all_sort_reverse: "list_all P (sort_reverse ts) = list_all P ts"
  by (simp add: list_all_iff set_sort_reverse)

text \<open>
  C3. For every batch whose date strings have the form \<^verbatim>\<open>YYYY-MM-DD\<close> and every store
  whose listed tasks carry a title and a due value, \<^verbatim>\<open>process_collected_tasks\<close> returns a
  count on the first call, and a second call on the same batch, against the service
  the first call left (it holds the first call's inserts) and on the same day,
  returns 0 and inserts nothing.
\<close>

theorem submission_idempotent:
  assumes "list_all (\<lambda>t. canonical (date t)) all_tasks" and "list_all well_formed (tasks svc)"
  shows "\<exists>added_count svc'.
           process_collected_tasks today svc all_tasks = (Inr added_count, svc')
         \<and> fst (process_collected_tasks today svc' all_tasks) = Inr 0
         \<and> tasks (snd (process_collected_tasks today svc' all_tasks)) = tasks svc'"
proof -
  let ?ts = "sort_reverse all_tasks"
  have canon: "list_all (\<lambda>t. canonical (date t)) ?ts"
    using assms(1) by (simp add: list_all_sort_reverse)
  from submit_loop_first [OF assms(2) canon, of today 0, unfolded add_0]
  obtain ins :: "remote_task list" and svc'
    where first: "submit_loop today svc ?ts 0 = (Inr (length ins), svc')"
    "list_all well_formed (tasks svc')"
    "\<forall>t\<in>set ?ts. strptime (date t) = Some today
             \<or> list_ex (\<lambda>r. spec_equal r (title t) (date t)) (tasks svc')"
    by blast
  have parses: "\<forall>t\<in>set ?ts. strptime (date t) \<noteq> None"
    using canon canonical_parses by (fastforce simp: list_all_iff)
  have "fst (submit_loop today svc' ?ts 0) = Inr 0
      \<and> tasks (snd (submit_loop today svc' ?ts 0)) = tasks svc'"
    using first(3) parses by (intro submit_loop_second [OF first(2)]) blast
  with first(1) show ?thesis
    by (simp add: process_collected_tasks_def)
qed

lemma no_match_no_inserted:
  "\<not> list_ex (\<lambda>r. spec_equal r ttl dt) rs \<Longrightarrow> filter (inserted_for ttl dt) rs = []"
  by (auto simp: list_ex_iff filter_empty_conv dest: inserted_for_spec_equal)

lemma submit_loop_inserted_for:
  assumes "list_all well_formed (tasks svc)" and "list_all (\<lambda>t. canonical (date t)) ts"
    and "canonical dt" and "strptime dt \<noteq> Some today"
  shows "length (filter (inserted_for ttl dt) (tasks (snd (submit_loop today svc ts n)))) =
     (if list_ex (\<lambda>r. spec_equal r ttl dt) (tasks svc)
      then length (filter (inserted_for ttl dt) (tasks svc))
      else if list_ex (\<lambda>t. title t = ttl \<and> date t = dt) ts then 1 else 0)"
  using assms(1,2)
proof (induction ts arbitrary: svc n)
  case Nil
  then show ?case
    by (simp add: no_match_no_inserted)
next
  case (Cons t ts)
  from Cons.prems(2) obtain d where d: "strptime (date t) = Some d"
    using canonical_parses [of "date t"] by auto
  have canon_t: "canonical (date t)" and canon_ts: "list_all (\<lambda>t. canonical (date t)) ts"
    using Cons.prems(2) by simp_all
  note step = add_task_well_formed [OF d Cons.prems(1), of today "title t" "task_notes t"]
  let ?match = "list_ex (\<lambda>r. spec_equal r (title t) (date t)) (tasks svc)"
  let ?same = "title t = ttl \<and> date t = dt"
  consider (today) "d = today" | (found) "d \<noteq> today" "?match" | (fresh) "d \<noteq> today" "\<not> ?match"
    by blast
  then show ?case
  proof cases
    case today
    with d assms(4) have diff: "\<not> ?same"
      by auto
    show ?thesis
      using Cons.IH [OF Cons.prems(1) canon_ts, of n] step today diff by auto
  next
    case found
    let ?svc1 = "svc\<lparr>calls := calls svc @ [(date t, TasksList)]\<rparr>"
    have wf1: "list_all well_formed (tasks ?svc1)"
      using Cons.prems(1) by simp
    have diff: "\<not> list_ex (\<lambda>r. spec_equal r ttl dt) (tasks svc) \<Longrightarrow> \<not> ?same"
      using found(2) by auto
    show ?thesis
      using Cons.IH [OF wf1 canon_ts, of n] step found diff by auto
  next
    case fresh
    let ?nt = "new_task d (title t) (task_notes t)"
    let ?svc1 = "svc\<lparr>tasks := tasks svc @ [?nt],
       calls := calls svc @ [(date t, TasksList), (date t, TasksInsert ?nt)]\<rparr>"
    have wf1: "list_all well_formed (tasks ?svc1)"
      using Cons.prems(1) by (simp add: well_formed_new_task)
    have se: "spec_equal ?nt ttl dt \<longleftrightarrow> ?same"
      by (rule spec_equal_new_task [OF canon_t d assms(3)])
    have ins: "inserted_for ttl dt ?nt \<longleftrightarrow> ?same"
      by (rule inserted_for_new_task [OF canon_t d])
    have diff: "list_ex (\<lambda>r. spec_equal r ttl dt) (tasks svc) \<Longrightarrow> \<not> ?same"
      using fresh(2) by auto
    have ih: "length (filter (inserted_for ttl dt) (tasks (snd (submit_loop today ?svc1 ts (n + 1))))) =
     (if list_ex (\<lambda>r. spec_equal r ttl dt) (tasks svc) \<or> ?same
      then length (filter (inserted_for ttl dt) (tasks svc)) + (if ?same then 1 else 0)
      else if list_ex (\<lambda>t. title t = ttl \<and> date t = dt) ts then 1 else 0)"
      using Cons.IH [OF wf1 canon_ts, of "n + 1"] se ins by simp
    have run: "submit_loop today svc (t # ts) n = submit_loop today ?svc1 ts (n + 1)"
      using step fresh by simp
    show ?thesis
    proof (cases "list_ex (\<lambda>r. spec_equal r ttl dt) (tasks svc)")
      case True
      with diff ih run show ?thesis
        by simp
    next
      case False
      with ih run no_match_no_inserted [OF False] show ?thesis
        by simp
    qed
  qed
qed

text \<open>
  C5, amended. Duplicates within a batch are suppressed: the task list is queried
  again for every candidate, so a task inserted earlier in the run is seen. For every
  batch whose date strings have the form \<^verbatim>\<open>YYYY-MM-DD\<close> and every store whose listed tasks
  carry a title and a due value: if a candidate of the batch is not dated today and no
  listed task equals it, then, however many candidates of the batch share its title
  and date, exactly one task with that title and that date is inserted. The count
  returned is the number of tasks inserted.
\<close>

theorem run_local_duplicates_suppressed:
  assumes "list_all (\<lambda>t. canonical (date t)) all_tasks" and "list_all well_formed (tasks svc)"
    and "c \<in> set all_tasks" and "strptime (date c) \<noteq> Some today"
    and "\<not> list_ex (\<lambda>r. spec_equal r (title c) (date c)) (tasks svc)"
  shows "\<exists>ins svc'.
           process_collected_tasks today svc all_tasks = (Inr (length ins), svc')
         \<and> tasks svc' = tasks svc @ ins
         \<and> length (filter (inserted_for (title c) (date c)) ins) = 1"
proof -
  let ?ts = "sort_reverse all_tasks"
  have canon: "list_all (\<lambda>t. canonical (date t)) ?ts"
    using assms(1) by (simp add: list_all_sort_reverse)
  have canon_c: "canonical (date c)"
    using assms(1,3) by (simp add: list_all_iff)
  from submit_loop_first [OF assms(2) canon, of today 0, unfolded add_0]
  obtain ins :: "remote_task list" and svc'
    where first: "submit_loop today svc ?ts 0 = (Inr (length ins), svc')"
    "tasks svc' = tasks svc @ ins"
    by blast
  have occurs: "list_ex (\<lambda>t. title t = title c \<and> date t = date c) ?ts"
    using assms(3) by (auto simp: list_ex_iff set_sort_reverse)
  have "length (filter (inserted_for (title c) (date c)) (tasks svc')) = 1"
    using submit_loop_inserted_for [OF assms(2) canon canon_c assms(4), of "title c" 0]
      assms(5) occurs first(1) by simp
  then have "length (filter (inserted_for (title c) (date c)) ins) = 1"
    using no_match_no_inserted [OF assms(5)] first(2) by simp
  with first show ?thesis
    by (simp add: process_collected_tasks_def)
qed


lemmas run_eval =
  process_collected_tasks_def sort_reverse_def less_eq_char_def add_task_if_not_exists_def
  new_task_def isoformat_def Let_def pad2_def pad4_def digit_char_def

theorem submission_idempotent_witness:
  "process_collected_tasks (2024, 1, 15) \<lparr>tasks = [], calls = []\<rparr>
     [\<lparr>title = ''a'', date = ''2024-01-20'', task_notes = ''n''\<rparr>,
      \<lparr>title = ''s'', date = ''2024-01-15'', task_notes = ''n''\<rparr>]
   = (Inr 1, \<lparr>tasks = [new_task (2024, 1, 20) ''a'' ''n''],
              calls = [(''2024-01-20'', TasksList),
                       (''2024-01-20'', TasksInsert (new_task (2024, 1, 20) ''a'' ''n''))]\<rparr>)
   \<and> fst (process_collected_tasks (2024, 1, 15)
        \<lparr>tasks = [new_task (2024, 1, 20) ''a'' ''n''],
         calls = [(''2024-01-20'', TasksList),
                  (''2024-01-20'', TasksInsert (new_task (2024, 1, 20) ''a'' ''n''))]\<rparr>
        [\<lparr>title = ''a'', date = ''2024-01-20'', task_notes = ''n''\<rparr>,
         \<lparr>title = ''s'', date = ''2024-01-15'', task_notes = ''n''\<rparr>]) = Inr 0"
proof -
  let ?batch = "[\<lparr>title = ''a'', date = ''2024-01-20'', task_notes = ''n''\<rparr>,
      \<lparr>title = ''s'', date = ''2024-01-15'', task_notes = ''n''\<rparr>]"
  let ?svc0 = "\<lparr>tasks = [], calls = []\<rparr>"
  have run: "process_collected_tasks (2024, 1, 15) ?svc0 ?batch
     = (Inr 1, \<lparr>tasks = [new_task (2024, 1, 20) ''a'' ''n''],
              calls = [(''2024-01-20'', TasksList),
                       (''2024-01-20'', TasksInsert (new_task (2024, 1, 20) ''a'' ''n''))]\<rparr>)"
    by (simp add: run_eval strptime_20240115 strptime_20240120)
  have canon: "list_all (\<lambda>t. canonical (date t)) ?batch"
    by (simp add: canonical_def strptime_20240115 strptime_20240120 pad2_def pad4_def
        digit_char_def)
  have wf: "list_all well_formed (tasks ?svc0)"
    by simp
  from submission_idempotent [OF canon wf, of "(2024, 1, 15)"] run show ?thesis
    by auto
qed

text \<open>
  The hypothesis on the form of the date strings is needed: \<^verbatim>\<open>strptime\<close> accepts a month
  or day without its leading zero, the inserted \<^verbatim>\<open>due\<close> is zero-padded, and
  \<^verbatim>\<open>startswith\<close> compares with the string as given. Such a candidate is inserted again
  by a second call.
\<close>

lemma strptime_non_padded: "strptime ''2030-1-5'' = Some (2030, 1, 5)"
  by (simp add: date_eval)

lemma non_padded_date_inserted_again:
  "fst (process_collected_tasks (2024, 1, 15) \<lparr>tasks = [], calls = []\<rparr>
     [\<lparr>title = ''a'', date = ''2030-1-5'', task_notes = ''n''\<rparr>]) = Inr 1
   \<and> fst (process_collected_tasks (2024, 1, 15)
       (snd (process_collected_tasks (2024, 1, 15) \<lparr>tasks = [], calls = []\<rparr>
          [\<lparr>title = ''a'', date = ''2030-1-5'', task_notes = ''n''\<rparr>]))
       [\<lparr>title = ''a'', date = ''2030-1-5'', task_notes = ''n''\<rparr>]) = Inr 1"
  by (simp add: run_eval strptime_non_padded)

text \<open>
  C5, as stated, at a batch of two candidates with the same title and date and an empty
  store: one task is inserted, not two, and the count is 1. The second candidate's
  query finds the task inserted for the first.
\<close>

theorem run_local_duplicates_counterexample:
  "list_ex (\<lambda>r. spec_equal r ''a'' ''2024-01-20'') (tasks \<lparr>tasks = [], calls = []\<rparr>) = False
   \<and> process_collected_tasks (2024, 1, 15) \<lparr>tasks = [], calls = []\<rparr>
     [\<lparr>title = ''a'', date = ''2024-01-20'', task_notes = ''n''\<rparr>,
      \<lparr>title = ''a'', date = ''2024-01-20'', task_notes = ''n''\<rparr>]
   = (Inr 1, \<lparr>tasks = [new_task (2024, 1, 20) ''a'' ''n''],
              calls = [(''2024-01-20'', TasksList),
                       (''2024-01-20'', TasksInsert (new_task (2024, 1, 20) ''a'' ''n'')),
                       (''2024-01-20'', TasksList)]\<rparr>)"
  by (simp add: run_eval strptime_20240120)

theorem run_local_duplicates_suppressed_witness:
  "tasks (snd (process_collected_tasks (2024, 1, 15) \<lparr>tasks = [], calls = []\<rparr>
     [\<lparr>title = ''a'', date = ''2024-01-20'', task_notes = ''n''\<rparr>,
      \<lparr>title = ''b'', date = ''2024-02-01'', task_notes = ''n''\<rparr>,
      \<lparr>title = ''a'', date = ''2024-01-20'', task_notes = ''m''\<rparr>]))
   = [new_task (2024, 2, 1) ''b'' ''n'', new_task (2024, 1, 20) ''a'' ''n'']
   \<and> length (filter (inserted_for ''a'' ''2024-01-20'')
       [new_task (2024, 2, 1) ''b'' ''n'', new_task (2024, 1, 20) ''a'' ''n'']) = 1"
proof -
  let ?c = "\<lparr>title = ''a'', date = ''2024-01-20'', task_notes = ''n''\<rparr>"
  let ?batch = "[?c, \<lparr>title = ''b'', date = ''2024-02-01'', task_notes = ''n''\<rparr>,
      \<lparr>title = ''a'', date = ''2024-01-20'', task_notes = ''m''\<rparr>]"
  let ?svc0 = "\<lparr>tasks = [], calls = []\<rparr>"
  have run: "tasks (snd (process_collected_tasks (2024, 1, 15) ?svc0 ?batch))
     = [new_task (2024, 2, 1) ''b'' ''n'', new_task (2024, 1, 20) ''a'' ''n'']"
    by (simp add: run_eval strptime_20240201 strptime_20240120)
  have canon: "list_all (\<lambda>t. canonical (date t)) ?batch"
    by (simp add: canonical_def strptime_20240201 strptime_20240120 pad2_def pad4_def
        digit_char_def)
  have wf: "list_all well_formed (tasks ?svc0)"
    by simp
  have mem: "?c \<in> set ?batch"
    by simp
  have nt: "strptime (date ?c) \<noteq> Some (2024, 1, 15)"
    by (simp add: strptime_20240120)
  have fresh: "\<not> list_ex (\<lambda>r. spec_equal r (title ?c) (date ?c)) (tasks ?svc0)"
    by simp
  from run_local_duplicates_suppressed [OF canon wf mem nt fresh]
  obtain ins :: "remote_task list" and svc'
    where res: "process_collected_tasks (2024, 1, 15) ?svc0 ?batch = (Inr (length ins), svc')"
      "tasks svc' = tasks ?svc0 @ ins"
      "length (filter (inserted_for (title ?c) (date ?c)) ins) = 1"
    by blast
  from res(1,2) run have "ins = [new_task (2024, 2, 1) ''b'' ''n'', new_task (2024, 1, 20) ''a'' ''n'']"
    by simp
  with res(3) run show ?thesis
    by simp
qed

subsection \<open>The normalizers\<close>

lemma not_less_pair_fst: "\<not> (a, b) < (c, e) \<Longrightarrow> c \<le> a"
  for a c :: "'a::linorder" and b e :: "'b::linorder"
  by (auto simp: less_prod_def not_less)

lemma prev_day_less: "prev_day t = Inr y \<Longrightarrow> y < t"
  by (cases t) (auto simp: less_prod_def split: if_splits)

lemma kept_by_schedule_not_before_yesterday:
  assumes "kept_by_schedule now s"
  shows "\<exists>d. strptime s = Some d \<and> (\<forall>y. prev_day (fst now) = Inr y \<longrightarrow> y \<le> d)"
proof -
  obtain today tod where now: "now = (today, tod)"
    by (cases now)
  from assms obtain d lim where d: "strptime s = Some d" "minus_one_day now = Inr lim"
    "\<not> (d, midnight) < lim"
    by (auto simp: kept_by_schedule_def split: option.splits sum.splits)
  from d(2) obtain y where y: "prev_day today = Inr y" "lim = (y, tod)"
    by (auto simp: now split: sum.splits)
  from d(3) y(2) have "y \<le> d"
    using not_less_pair_fst [of d midnight y tod] by simp
  with d(1) y(1) show ?thesis
    by (simp add: now)
qed

lemma kept_by_homework_not_before_yesterday:
  assumes "kept_by_homework now s"
  shows "\<exists>d. strptime s = Some d \<and> (\<forall>y. prev_day (fst now) = Inr y \<longrightarrow> y \<le> d)"
proof -
  from assms obtain d where d: "strptime s = Some d" "fst now < d"
    by (auto simp: kept_by_homework_def split: option.splits)
  have "y \<le> d" if "prev_day (fst now) = Inr y" for y
    using prev_day_less [OF that] d(2) by simp
  with d(1) show ?thesis
    by blast
qed

lemma process_day_events_new:
  "process_day_events now all_tasks evs day month year = Inr all_tasks' \<Longrightarrow>
   \<exists>new. all_tasks' = all_tasks @ new \<and> list_all (\<lambda>t. kept_by_schedule now (date t)) new"
proof (induction evs arbitrary: all_tasks)
  case Nil
  then show ?case by simp
next
  case (Cons ev evs)
  let ?event_date = "year @ ''-'' @ month @ ''-'' @ zfill 2 (str_int day)"
  show ?case
  proof (cases "process_day_events now all_tasks (ev # evs) day month year
      = process_day_events now all_tasks evs day month year")
    case True
    with Cons show ?thesis
      by simp
  next
    case False
    then have added: "process_day_events now all_tasks (ev # evs) day month year
        = process_day_events now (add_event_task all_tasks ev ?event_date) evs day month year"
      and kept: "kept_by_schedule now ?event_date"
      using Cons.prems
      by (auto simp: Let_def kept_by_schedule_def split: if_splits option.splits sum.splits)
    from Cons.IH [of "add_event_task all_tasks ev ?event_date"] added Cons.prems
    obtain new where new: "all_tasks' = add_event_task all_tasks ev ?event_date @ new"
      "list_all (\<lambda>t. kept_by_schedule now (date t)) new"
      by auto
    obtain t where t: "add_event_task all_tasks ev ?event_date = all_tasks @ [t]" "date t = ?event_date"
      by (simp add: add_event_task_def Let_def)
    show ?thesis
      using new t kept by (intro exI [of _ "t # new"]) simp
  qed
qed

lemma schedule_loop_new:
  "schedule_loop now all_tasks schedule month year = Inr all_tasks' \<Longrightarrow>
   \<exists>new. all_tasks' = all_tasks @ new \<and> list_all (\<lambda>t. kept_by_schedule now (date t)) new"
proof (induction schedule arbitrary: all_tasks)
  case Nil
  then show ?case by simp
next
  case (Cons p rest)
  obtain day events where p: "p = (day, events)"
    by (cases p)
  show ?case
  proof (cases "events = []")
    case True
    with Cons p show ?thesis
      by simp
  next
    case False
    with Cons.prems p obtain mid where mid:
      "process_day_events now all_tasks events day month year = Inr mid"
      "schedule_loop now mid rest month year = Inr all_tasks'"
      by (auto split: sum.splits)
    from process_day_events_new [OF mid(1)] obtain n1 where n1: "mid = all_tasks @ n1"
      "list_all (\<lambda>t. kept_by_schedule now (date t)) n1"
      by blast
    from Cons.IH [OF mid(2)] obtain n2 where n2: "all_tasks' = mid @ n2"
      "list_all (\<lambda>t. kept_by_schedule now (date t)) n2"
      by blast
    show ?thesis
      using n1 n2 by (intro exI [of _ "n1 @ n2"]) simp
  qed
qed

lemma process_schedule_new:
  "process_schedule now all_tasks schedule = Inr all_tasks' \<Longrightarrow>
   \<exists>new. all_tasks' = all_tasks @ new \<and> list_all (\<lambda>t. kept_by_schedule now (date t)) new"
proof -
  assume run: "process_schedule now all_tasks schedule = Inr all_tasks'"
  obtain today t where "now = (today, t)"
    by (cases now)
  moreover obtain y m d where "today = (y, m, d)"
    by (cases today)
  ultimately show ?thesis
    using run schedule_loop_new [of now all_tasks schedule "pad2 m" "pad4 y" all_tasks'] by simp
qed

lemma process_single_homework_new:
  "process_single_homework now detail all_tasks hw = Inr all_tasks' \<Longrightarrow>
   \<exists>new. all_tasks' = all_tasks @ new \<and> list_all (\<lambda>t. kept_by_homework now (date t)) new"
  by (auto simp: process_single_homework_def kept_by_homework_def not_less
      split: sum.splits option.splits if_splits)

lemma homework_loop_new:
  "\<exists>new. snd (homework_loop now detail all_tasks hws) = all_tasks @ new
     \<and> list_all (\<lambda>t. kept_by_homework now (date t)) new"
proof (induction hws arbitrary: all_tasks)
  case Nil
  then show ?case by simp
next
  case (Cons hw hws)
  show ?case
  proof (cases "process_single_homework now detail all_tasks hw")
    case (Inl e)
    then show ?thesis by simp
  next
    case (Inr mid)
    from process_single_homework_new [OF Inr] obtain n1 where n1: "mid = all_tasks @ n1"
      "list_all (\<lambda>t. kept_by_homework now (date t)) n1"
      by blast
    from Cons.IH [of mid] obtain n2 where n2: "snd (homework_loop now detail mid hws) = mid @ n2"
      "list_all (\<lambda>t. kept_by_homework now (date t)) n2"
      by blast
    show ?thesis
      using Inr n1 n2 by (intro exI [of _ "n1 @ n2"]) simp
  qed
qed

lemma process_homework_new:
  "\<exists>new. process_homework now detail all_tasks fetched = all_tasks @ new
     \<and> list_all (\<lambda>t. kept_by_homework now (date t)) new"
  using homework_loop_new [of now detail all_tasks]
  by (cases fetched) (simp_all add: process_homework_def)

lemma collect_kept:
  assumes "collect now schedule fetched detail = Inr all_tasks"
  shows "list_all (\<lambda>t. kept_by_schedule now (date t) \<or> kept_by_homework now (date t)) all_tasks"
proof -
  from assms obtain mid where mid: "process_schedule now [] schedule = Inr mid"
    "all_tasks = process_homework now detail mid fetched"
    by (auto simp: collect_def split: sum.splits)
  from process_schedule_new [OF mid(1)] have "list_all (\<lambda>t. kept_by_schedule now (date t)) mid"
    by auto
  moreover from process_homework_new [of now detail mid fetched] mid(2)
  obtain new where "all_tasks = mid @ new" "list_all (\<lambda>t. kept_by_homework now (date t)) new"
    by auto
  ultimately show ?thesis
    by (auto simp: list_all_iff)
qed

lemma find_existing_error: "find_existing ts event_title event_date = Inl e \<Longrightarrow> e = KeyError"
  by (induction ts) (auto split: option.splits if_splits)

lemma add_task_no_value_error:
  "strptime event_date \<noteq> None \<Longrightarrow>
   fst (add_task_if_not_exists today svc event_title event_date event_notes) \<noteq> Inl ValueError"
  by (auto simp: add_task_if_not_exists_def Let_def split: option.splits sum.splits bool.splits
      dest: find_existing_error)

lemma submit_loop_no_value_error:
  "list_all (\<lambda>t. strptime (date t) \<noteq> None) ts \<Longrightarrow>
   fst (submit_loop today svc ts n) \<noteq> Inl ValueError"
proof (induction ts arbitrary: svc n)
  case Nil
  then show ?case by simp
next
  case (Cons t ts)
  obtain r svc1 where step: "add_task_if_not_exists today svc (title t) (date t) (task_notes t) = (r, svc1)"
    by (cases "add_task_if_not_exists today svc (title t) (date t) (task_notes t)")
  from Cons.prems have "r \<noteq> Inl ValueError"
    using add_task_no_value_error [of "date t" today svc "title t" "task_notes t"] step by simp
  with Cons step show ?case
    by (cases r) auto
qed

lemma kept_parses:
  "kept_by_schedule now s \<or> kept_by_homework now s \<Longrightarrow> strptime s \<noteq> None"
  by (auto simp: kept_by_schedule_def kept_by_homework_def split: option.splits)

text \<open>
  C10. Every entry of the list that the two normalizers hand to
  \<^verbatim>\<open>process_collected_tasks\<close> has a date string that \<^verbatim>\<open>strptime\<close> accepts: both
  normalizers parse the very string they append. Hence the parse at the start of
  \<^verbatim>\<open>add_task_if_not_exists\<close> never raises \<^verbatim>\<open>ValueError\<close> in \<^verbatim>\<open>process_collected_tasks\<close>,
  whatever the day of submission and the store, and the run as a whole does not end
  in \<^verbatim>\<open>ValueError\<close> once the normalizers have returned.
\<close>

theorem collected_dates_parse:
  assumes "collect now schedule fetched detail = Inr all_tasks"
  shows "list_all (\<lambda>t. strptime (date t) \<noteq> None) all_tasks
     \<and> fst (process_collected_tasks today svc all_tasks) \<noteq> Inl ValueError
     \<and> fst (main now svc schedule fetched detail) \<noteq> Inl ValueError"
proof -
  have parses: "list_all (\<lambda>t. strptime (date t) \<noteq> None) all_tasks"
    unfolding list_all_iff
  proof
    fix t
    assume "t \<in> set all_tasks"
    with collect_kept [OF assms]
    have "kept_by_schedule now (date t) \<or> kept_by_homework now (date t)"
      by (simp add: list_all_iff)
    then show "strptime (date t) \<noteq> None"
      by (rule kept_parses)
  qed
  then have "list_all (\<lambda>t. strptime (date t) \<noteq> None) (sort_reverse all_tasks)"
    by (simp add: list_all_sort_reverse)
  then have "fst (process_collected_tasks day svc all_tasks) \<noteq> Inl ValueError" for day
    unfolding process_collected_tasks_def by (rule submit_loop_no_value_error)
  with parses show ?thesis
    by (simp add: main_def assms)
qed

text \<open>
  C4, amended. During a run, no entry is added to \<^verbatim>\<open>all_tasks\<close> for an event dated
  strictly before yesterday, and the homework normalizer adds none for an item dated
  today or earlier. (The schedule normalizer does add entries for events dated today,
  see the counterexample below; rule A skips them at submission.)
\<close>

theorem candidate_dates:
  "(collect now schedule fetched detail = Inr all_tasks \<longrightarrow>
      (\<forall>t\<in>set all_tasks. \<exists>d. strptime (date t) = Some d
          \<and> (\<forall>y. prev_day (fst now) = Inr y \<longrightarrow> y \<le> d)))
   \<and> (\<forall>t\<in>set (process_homework now detail [] fetched).
          \<exists>d. strptime (date t) = Some d \<and> fst now < d)"
proof (intro conjI impI ballI)
  fix t
  assume "collect now schedule fetched detail = Inr all_tasks" and "t \<in> set all_tasks"
  then have "kept_by_schedule now (date t) \<or> kept_by_homework now (date t)"
    using collect_kept [of now schedule fetched detail all_tasks] by (simp add: list_all_iff)
  then show "\<exists>d. strptime (date t) = Some d \<and> (\<forall>y. prev_day (fst now) = Inr y \<longrightarrow> y \<le> d)"
    using kept_by_schedule_not_before_yesterday kept_by_homework_not_before_yesterday by blast
next
  fix t
  assume "t \<in> set (process_homework now detail [] fetched)"
  then have "kept_by_homework now (date t)"
    using process_homework_new [of now detail "[]" fetched] by (auto simp: list_all_iff)
  then show "\<exists>d. strptime (date t) = Some d \<and> fst now < d"
    by (auto simp: kept_by_homework_def split: option.splits)
qed

text \<open>
  C6. \<^verbatim>\<open>_process_single_homework\<close> appends an entry only when the date part of
  \<^verbatim>\<open>completion_date\<close> parses to a day strictly later than today; an item whose date is
  today or in the past leaves \<^verbatim>\<open>all_tasks\<close> as it was; an item dated later than today
  whose details can be fetched is appended, with the date part as its date.
\<close>

theorem homework_strictly_future:
  "(process_single_homework now detail all_tasks hw = Inr all_tasks' \<longrightarrow>
      all_tasks' = all_tasks
      \<or> (\<exists>t d. all_tasks' = all_tasks @ [t] \<and> split_first (completion_date hw) = Inr (date t)
            \<and> strptime (date t) = Some d \<and> fst now < d))
   \<and> (split_first (completion_date hw) = Inr cdate \<and> strptime cdate = Some d \<and> d \<le> fst now \<longrightarrow>
        process_single_homework now detail all_tasks hw = Inr all_tasks)
   \<and> (split_first (completion_date hw) = Inr cdate \<and> strptime cdate = Some d \<and> fst now < d
        \<and> detail (href hw) = Inr details \<longrightarrow>
        (\<exists>t. process_single_homework now detail all_tasks hw = Inr (all_tasks @ [t])
           \<and> date t = cdate \<and> title t = ''zadanie - '' @ lesson hw))"
  by (auto simp: process_single_homework_def not_less split: sum.splits option.splits if_splits)

text \<open>
  A date part that is not blank and does not parse makes the loop skip the item and
  go on; a blank \<^verbatim>\<open>completion_date\<close> ends the loop.
\<close>

lemma homework_malformed_date_skipped:
  "split_first (completion_date hw) = Inr cdate \<Longrightarrow> strptime cdate = None \<Longrightarrow>
   homework_loop now detail all_tasks (hw # hws) = homework_loop now detail all_tasks hws"
  by (simp add: process_single_homework_def)

lemma homework_blank_date_aborts:
  "split_first (completion_date hw) = Inl e \<Longrightarrow>
   homework_loop now detail all_tasks (hw # hws) = (Some e, all_tasks)"
  by (simp add: process_single_homework_def)

lemma strptime_20240114: "strptime ''2024-01-14'' = Some (2024, 1, 14)"
  by (simp add: date_eval)

lemma strptime_20240116: "strptime ''2024-01-16'' = Some (2024, 1, 16)"
  by (simp add: date_eval)

lemma lower_sprawdzian: "lower ''Sprawdzian'' = ''sprawdzian''"
  by (simp add: lower_def lower_char_def char_of_eq_iff)

lemma lower_wycieczka: "lower ''Wycieczka'' = ''wycieczka''"
  by (simp add: lower_def lower_char_def char_of_eq_iff)

lemmas normalizer_eval =
  lower_sprawdzian lower_wycieczka TEST_KEYWORDS_def zfill_def str_int_def digit_char_def
  midnight_def days_in_month_def is_leap_def less_prod_def less_eq_prod_def add_event_task_def
  pad2_def pad4_def collect_def process_homework_def process_single_homework_def
  split_first_def is_space_def
  strptime_20240114 strptime_20240115 strptime_20240116 strptime_20240120

text \<open>
  C4, as stated, at a schedule event dated today (the clock reads 2024-01-15 08:00):
  the entry is added to \<^verbatim>\<open>all_tasks\<close>.
\<close>

theorem schedule_today_counterexample:
  "process_day_events ((2024, 1, 15), (8, 0, 0, 0)) []
     [\<lparr>ev_title = ''Sprawdzian'', subject = ''Fizyka'', hour = ''8:00'', data = []\<rparr>]
     15 ''01'' ''2024''
   = Inr [\<lparr>title = ''Sprawdzian - Fizyka (8:00)'', date = ''2024-01-15'',
           task_notes = ''Brak dodatkowych informacji''\<rparr>]"
  by (simp add: normalizer_eval)

text \<open>
  The test of \<^verbatim>\<open>_process_day_events\<close> compares the event's day at midnight with the
  current time one day earlier: an event dated yesterday is dropped, unless the clock
  reads midnight exactly.
\<close>

lemma schedule_yesterday_dropped:
  "process_day_events ((2024, 1, 15), (8, 0, 0, 0)) []
     [\<lparr>ev_title = ''Sprawdzian'', subject = ''Fizyka'', hour = ''8:00'', data = []\<rparr>]
     14 ''01'' ''2024''
   = Inr []"
  by (simp add: normalizer_eval)

lemma schedule_yesterday_kept_at_midnight:
  "process_day_events ((2024, 1, 15), (0, 0, 0, 0)) []
     [\<lparr>ev_title = ''Sprawdzian'', subject = ''Fizyka'', hour = ''8:00'', data = []\<rparr>]
     14 ''01'' ''2024''
   = Inr [\<lparr>title = ''Sprawdzian - Fizyka (8:00)'', date = ''2024-01-14'',
           task_notes = ''Brak dodatkowych informacji''\<rparr>]"
  by (simp add: normalizer_eval)

lemma collect_example:
  "collect ((2024, 1, 15), (8, 0, 0, 0))
     [(14, [\<lparr>ev_title = ''Sprawdzian'', subject = ''Chemia'', hour = ''unknown'', data = []\<rparr>]),
      (15, [\<lparr>ev_title = ''Sprawdzian'', subject = ''Fizyka'', hour = ''8:00'', data = []\<rparr>]),
      (16, [\<lparr>ev_title = ''Wycieczka'', subject = '''', hour = '''', data = []\<rparr>])]
     (Inr [\<lparr>lesson = ''Matematyka'', completion_date = ''2024-01-20 00:00:00'', href = ''h1''\<rparr>,
           \<lparr>lesson = ''Historia'', completion_date = ''2024-01-15 00:00:00'', href = ''h2''\<rparr>])
     (\<lambda>h. Inr [(''Temat'', ''Zadanie 1''), (''Uwagi'', '''')])
   = Inr [\<lparr>title = ''Sprawdzian - Fizyka (8:00)'', date = ''2024-01-15'',
           task_notes = ''Brak dodatkowych informacji''\<rparr>,
          \<lparr>title = ''zadanie - Matematyka'', date = ''2024-01-20'',
           task_notes = ''Temat: Zadanie 1''\<rparr>]"
  by (simp add: normalizer_eval)

theorem candidate_dates_witness:
  "collect ((2024, 1, 15), (8, 0, 0, 0))
     [(14, [\<lparr>ev_title = ''Sprawdzian'', subject = ''Chemia'', hour = ''unknown'', data = []\<rparr>]),
      (15, [\<lparr>ev_title = ''Sprawdzian'', subject = ''Fizyka'', hour = ''8:00'', data = []\<rparr>]),
      (16, [\<lparr>ev_title = ''Wycieczka'', subject = '''', hour = '''', data = []\<rparr>])]
     (Inr [\<lparr>lesson = ''Matematyka'', completion_date = ''2024-01-20 00:00:00'', href = ''h1''\<rparr>,
           \<lparr>lesson = ''Historia'', completion_date = ''2024-01-15 00:00:00'', href = ''h2''\<rparr>])
     (\<lambda>h. Inr [(''Temat'', ''Zadanie 1''), (''Uwagi'', '''')])
   = Inr [\<lparr>title = ''Sprawdzian - Fizyka (8:00)'', date = ''2024-01-15'',
           task_notes = ''Brak dodatkowych informacji''\<rparr>,
          \<lparr>title = ''zadanie - Matematyka'', date = ''2024-01-20'',
           task_notes = ''Temat: Zadanie 1''\<rparr>]
   \<and> (2024, 1, 14) \<le> ((2024, 1, 15) :: ymd) \<and> (2024, 1, 14) \<le> ((2024, 1, 20) :: ymd)"
  using candidate_dates [of "((2024, 1, 15), (8, 0, 0, 0))"
     "[(14, [\<lparr>ev_title = ''Sprawdzian'', subject = ''Chemia'', hour = ''unknown'', data = []\<rparr>]),
      (15, [\<lparr>ev_title = ''Sprawdzian'', subject = ''Fizyka'', hour = ''8:00'', data = []\<rparr>]),
      (16, [\<lparr>ev_title = ''Wycieczka'', subject = '''', hour = '''', data = []\<rparr>])]"
     "Inr [\<lparr>lesson = ''Matematyka'', completion_date = ''2024-01-20 00:00:00'', href = ''h1''\<rparr>,
           \<lparr>lesson = ''Historia'', completion_date = ''2024-01-15 00:00:00'', href = ''h2''\<rparr>]"
     "\<lambda>h. Inr [(''Temat'', ''Zadanie 1''), (''Uwagi'', '''')]"
     "[\<lparr>title = ''Sprawdzian - Fizyka (8:00)'', date = ''2024-01-15'',
           task_notes = ''Brak dodatkowych informacji''\<rparr>,
          \<lparr>title = ''zadanie - Matematyka'', date = ''2024-01-20'',
           task_notes = ''Temat: Zadanie 1''\<rparr>]"]
    collect_example
  by (simp add: strptime_20240115 strptime_20240120)

theorem collected_dates_parse_witness:
  "list_all (\<lambda>t. strptime (date t) \<noteq> None)
     [\<lparr>title = ''Sprawdzian - Fizyka (8:00)'', date = ''2024-01-15'',
           task_notes = ''Brak dodatkowych informacji''\<rparr>,
          \<lparr>title = ''zadanie - Matematyka'', date = ''2024-01-20'',
           task_notes = ''Temat: Zadanie 1''\<rparr>]
   \<and> fst (process_collected_tasks (2024, 1, 15) \<lparr>tasks = [], calls = []\<rparr>
       [\<lparr>title = ''Sprawdzian - Fizyka (8:00)'', date = ''2024-01-15'',
           task_notes = ''Brak dodatkowych informacji''\<rparr>,
          \<lparr>title = ''zadanie - Matematyka'', date = ''2024-01-20'',
           task_notes = ''Temat: Zadanie 1''\<rparr>]) \<noteq> Inl ValueError"
  using collected_dates_parse [OF collect_example, of "(2024, 1, 15)" "\<lparr>tasks = [], calls = []\<rparr>"]
  by simp

theorem homework_strictly_future_witness:
  "process_single_homework ((2024, 1, 15), (8, 0, 0, 0))
     (\<lambda>h. Inr [(''Temat'', ''Zadanie 1''), (''Uwagi'', '''')]) []
     \<lparr>lesson = ''Matematyka'', completion_date = ''2024-01-16 00:00:00'', href = ''h1''\<rparr>
   = Inr [\<lparr>title = ''zadanie - Matematyka'', date = ''2024-01-16'',
           task_notes = ''Temat: Zadanie 1''\<rparr>]
   \<and> process_single_homework ((2024, 1, 15), (8, 0, 0, 0))
     (\<lambda>h. Inr [(''Temat'', ''Zadanie 1''), (''Uwagi'', '''')]) []
     \<lparr>lesson = ''Matematyka'', completion_date = ''2024-01-14 00:00:00'', href = ''h1''\<rparr>
   = Inr []
   \<and> process_single_homework ((2024, 1, 15), (8, 0, 0, 0))
     (\<lambda>h. Inr [(''Temat'', ''Zadanie 1''), (''Uwagi'', '''')]) []
     \<lparr>lesson = ''Matematyka'', completion_date = ''2024-01-15 00:00:00'', href = ''h1''\<rparr>
   = Inr []"
proof -
  let ?now = "((2024, 1, 15), (8, 0, 0, 0)) :: datetime"
  let ?detail = "\<lambda>h :: string. (Inr [(''Temat'', ''Zadanie 1''), (''Uwagi'', '''')]
     :: error + (string \<times> string) list)"
  let ?hw = "\<lambda>c. \<lparr>lesson = ''Matematyka'', completion_date = c, href = ''h1''\<rparr>"
  have sp: "split_first ''2024-01-16 00:00:00'' = Inr ''2024-01-16''"
    "split_first ''2024-01-14 00:00:00'' = Inr ''2024-01-14''"
    "split_first ''2024-01-15 00:00:00'' = Inr ''2024-01-15''"
    by (simp_all add: split_first_def is_space_def)
  have ord: "fst ?now < (2024, 1, 16)" "(2024, 1, 14) \<le> fst ?now" "(2024, 1, 15) \<le> fst ?now"
    by (simp_all add: less_prod_def less_eq_prod_def)
  note hsf = homework_strictly_future [where now = ?now and detail = ?detail and all_tasks = "[]"]
  from hsf [of "?hw ''2024-01-16 00:00:00''" _ "''2024-01-16''" "(2024, 1, 16)"
      "[(''Temat'', ''Zadanie 1''), (''Uwagi'', '''')]"] sp(1) ord(1)
  have kept: "process_single_homework ?now ?detail [] (?hw ''2024-01-16 00:00:00'')
     = Inr [\<lparr>title = ''zadanie - Matematyka'', date = ''2024-01-16'',
           task_notes = ''Temat: Zadanie 1''\<rparr>]"
    by (simp add: strptime_20240116 process_single_homework_def)
  from hsf [of "?hw ''2024-01-14 00:00:00''" _ "''2024-01-14''" "(2024, 1, 14)"] sp(2) ord(2)
  have past: "process_single_homework ?now ?detail [] (?hw ''2024-01-14 00:00:00'') = Inr []"
    by (simp add: strptime_20240114)
  from hsf [of "?hw ''2024-01-15 00:00:00''" _ "''2024-01-15''" "(2024, 1, 15)"] sp(3) ord(3)
  have today: "process_single_homework ?now ?detail [] (?hw ''2024-01-15 00:00:00'') = Inr []"
    by (simp add: strptime_20240115)
  from kept past today show ?thesis
    by simp
qed

text \<open>
  C8 at a failing input. A blank \<^verbatim>\<open>completion_date\<close> makes
  \<^verbatim>\<open>homework.completion_date.split()[0]\<close> raise \<^verbatim>\<open>IndexError\<close> before the \<^verbatim>\<open>try\<close>; the
  handler of \<^verbatim>\<open>process_homework\<close> catches it and the rest of the batch is not
  processed: the second item, which alone yields an entry, yields none here.
\<close>

theorem homework_blank_date_aborts_batch:
  "process_homework ((2024, 1, 15), (8, 0, 0, 0))
     (\<lambda>h. Inr [(''Temat'', ''Zadanie 1''), (''Uwagi'', '''')]) []
     (Inr [\<lparr>lesson = ''Fizyka'', completion_date = '''', href = ''h0''\<rparr>,
           \<lparr>lesson = ''Matematyka'', completion_date = ''2024-01-20 00:00:00'', href = ''h1''\<rparr>])
   = []
   \<and> process_homework ((2024, 1, 15), (8, 0, 0, 0))
     (\<lambda>h. Inr [(''Temat'', ''Zadanie 1''), (''Uwagi'', '''')]) []
     (Inr [\<lparr>lesson = ''Matematyka'', completion_date = ''2024-01-20 00:00:00'', href = ''h1''\<rparr>])
   = [\<lparr>title = ''zadanie - Matematyka'', date = ''2024-01-20'',
       task_notes = ''Temat: Zadanie 1''\<rparr>]"
  by (simp add: normalizer_eval)

end
